theory Spec2Isabelle
  imports Complex_Main "HOL-Library.AList" "HOL-Library.Multiset"
begin

section \<open>Python values, errors and dictionaries\<close>

text \<open>
  The values a Raw Input dictionary holds and a data-frame cell stores: integers, floats and
  strings. A Python float is represented by the rational number it denotes; rounding,
  infinities and NaN are outside the model.
\<close>

datatype pyval = VInt int | VFloat rat | VStr string

text \<open>
  Every exception the prediction path can raise is a value. \<open>KeyError\<close> carries the
  missing key. \<open>ArtifactError\<close> stands for whatever a loaded scaler or model raises.
\<close>

datatype error = KeyError string | AttributeError | TypeError | ValueError | ArtifactError string

text \<open>
  A Python dictionary is an association list in insertion order; a dictionary has no
  duplicate keys, which \<open>wf_dict\<close> states.
\<close>

type_synonym raw_input = "(string \<times> pyval) list"

definition wf_dict :: "('k \<times> 'v) list \<Rightarrow> bool" where
  "wf_dict d = distinct (map fst d)"

text \<open>\<^verbatim>\<open>d[k]\<close>: a missing key raises \<^verbatim>\<open>KeyError(k)\<close>.\<close>

definition dict_getitem :: "(string \<times> 'v) list \<Rightarrow> string \<Rightarrow> error + 'v" where
  "dict_getitem d k = (case map_of d k of None \<Rightarrow> Inl (KeyError k) | Some v \<Rightarrow> Inr v)"

text \<open>\<^verbatim>\<open>d.get(k, default)\<close>.\<close>

definition dict_get :: "('k \<times> 'v) list \<Rightarrow> 'k \<Rightarrow> 'v \<Rightarrow> 'v" where
  "dict_get d k dflt = (case map_of d k of None \<Rightarrow> dflt | Some v \<Rightarrow> v)"

text \<open>
  \<^verbatim>\<open>value <= n\<close> for an integer literal \<open>n\<close>: numbers compare by value, a string
  against an integer raises \<^verbatim>\<open>TypeError\<close>.
\<close>

fun py_le :: "pyval \<Rightarrow> int \<Rightarrow> error + bool" where
  "py_le (VInt a) n = Inr (a \<le> n)"
| "py_le (VFloat r) n = Inr (r \<le> of_int n)"
| "py_le (VStr s) n = Inl TypeError"

text \<open>\<^verbatim>\<open>int(x)\<close> on a float truncates towards zero.\<close>

definition py_int :: "rat \<Rightarrow> int" where
  "py_int r = (if 0 \<le> r then \<lfloor>r\<rfloor> else \<lceil>r\<rceil>)"

section \<open>Strings\<close>

text \<open>
  \<^verbatim>\<open>str.lower()\<close> on the ASCII letters; every other character is left as it is.
\<close>

definition lower_char :: "char \<Rightarrow> char" where
  "lower_char c =
     (case map_of (zip ''ABCDEFGHIJKLMNOPQRSTUVWXYZ'' ''abcdefghijklmnopqrstuvwxyz'') c of
        None \<Rightarrow> c | Some l \<Rightarrow> l)"

definition lower :: "string \<Rightarrow> string" where
  "lower s = map lower_char s"

text \<open>
  \<^verbatim>\<open>s.split(sep)\<close>: the string is scanned from the left; at each occurrence of the
  separator the part collected so far is closed and the scan resumes behind the separator.
  The result always has at least one part. \<open>acc\<close> is the part being collected.
\<close>

function split_acc :: "string \<Rightarrow> string \<Rightarrow> string \<Rightarrow> string list" where
  "split_acc sep acc [] = [acc]"
| "split_acc sep acc (c # cs) =
     (if sep \<noteq> [] \<and> take (length sep) (c # cs) = sep
      then acc # split_acc sep [] (drop (length sep) (c # cs))
      else split_acc sep (acc @ [c]) cs)"
  by pat_completeness auto
termination
  by (relation "measure (\<lambda>(sep, acc, s). length s)") auto

definition py_split :: "string \<Rightarrow> string \<Rightarrow> string list" where
  "py_split sep s = split_acc sep [] s"

text \<open>\<^verbatim>\<open>sep.join(parts)\<close>, used to build the medical-history strings the claims speak of.\<close>

fun py_join :: "string \<Rightarrow> string list \<Rightarrow> string" where
  "py_join sep [] = []"
| "py_join sep [p] = p"
| "py_join sep (p # q # ps) = p @ sep @ py_join sep (q # ps)"

section \<open>Risk score (\<^verbatim>\<open>calculate_normalized_risk\<close>)\<close>

definition risk_scores :: "(string \<times> int) list" where
  "risk_scores =
     [(''diabetes'', 6),
      (''heart disease'', 8),
      (''high blood pressure'', 6),
      (''thyroid'', 5),
      (''no disease'', 0),
      (''none'', 0)]"

definition calculate_normalized_risk :: "string \<Rightarrow> rat" where
  "calculate_normalized_risk medical_history =
     (let diseases = py_split '' & '' (lower medical_history);
          total_risk_score = sum_list (map (\<lambda>disease. dict_get risk_scores disease 0) diseases);
          max_score = (14::int);
          min_score = (0::int)
      in of_int (total_risk_score - min_score) / of_int (max_score - min_score))"

text \<open>
  The weight table as the specification words it: one weight per condition name, 0 for
  every other name.
\<close>

definition spec_weight :: "string \<Rightarrow> int" where
  "spec_weight name =
     (if name = ''diabetes'' then 6
      else if name = ''heart disease'' then 8
      else if name = ''high blood pressure'' then 6
      else if name = ''thyroid'' then 5
      else if name = ''no disease'' then 0
      else if name = ''none'' then 0
      else 0)"

text \<open>A condition name is known when, lowercased, it is a key of the weight table.\<close>

definition known_condition :: "string \<Rightarrow> bool" where
  "known_condition name = (lower name \<in> set (map fst risk_scores))"

section \<open>Single-row data frames\<close>

text \<open>
  The data frame of the program has one row (index 0): it is the list of its columns in
  order, each with the value of its only cell.
\<close>

type_synonym dataframe = "(string \<times> pyval) list"

definition columns :: "dataframe \<Rightarrow> string list" where
  "columns df = map fst df"

text \<open>\<^verbatim>\<open>pd.DataFrame(0, columns=cols, index=[0])\<close>.\<close>

definition df_new :: "string list \<Rightarrow> dataframe" where
  "df_new cols = map (\<lambda>c. (c, VInt 0)) cols"

text \<open>
  \<^verbatim>\<open>df[c] = v\<close> for a scalar \<open>v\<close>: an existing column is overwritten where it stands,
  a new column is appended behind the last one.
\<close>

definition df_setitem :: "dataframe \<Rightarrow> string \<Rightarrow> pyval \<Rightarrow> dataframe" where
  "df_setitem df c v = AList.update c v df"

text \<open>\<^verbatim>\<open>df[cols]\<close>: the sub-frame of the listed columns; a missing column raises.\<close>

fun df_select :: "dataframe \<Rightarrow> string list \<Rightarrow> error + dataframe" where
  "df_select df [] = Inr []"
| "df_select df (c # cs) =
     (case map_of df c of
        None \<Rightarrow> Inl (KeyError c)
      | Some v \<Rightarrow> (case df_select df cs of Inl e \<Rightarrow> Inl e | Inr sub \<Rightarrow> Inr ((c, v) # sub)))"

text \<open>
  \<^verbatim>\<open>df[cols] = array\<close> for a one-row array: the number of values must be the number
  of listed columns, and the columns are assigned one after the other.
\<close>

fun assign_each :: "dataframe \<Rightarrow> (string \<times> rat) list \<Rightarrow> dataframe" where
  "assign_each df [] = df"
| "assign_each df ((c, y) # rest) = assign_each (df_setitem df c (VFloat y)) rest"

definition df_assign :: "dataframe \<Rightarrow> string list \<Rightarrow> rat list \<Rightarrow> error + dataframe" where
  "df_assign df cols ys =
     (if length ys \<noteq> length cols then Inl ValueError else Inr (assign_each df (zip cols ys)))"

text \<open>\<^verbatim>\<open>df.drop(c, axis="columns", inplace=True)\<close>: a missing column raises.\<close>

definition df_drop :: "dataframe \<Rightarrow> string \<Rightarrow> error + dataframe" where
  "df_drop df c = (if c \<in> set (columns df) then Inr (AList.delete c df) else Inl (KeyError c))"

section \<open>Artifacts\<close>

text \<open>
  The four artifacts are loaded from files and opaque to the program. A scaler bundle pairs
  the names of the columns to scale with a transform, which receives the sub-frame of those
  columns and returns one value per column, or raises. A model receives the feature row and
  returns the first entry of its prediction, or raises.
\<close>

record scaler_bundle =
  cols_to_scale :: "string list"
  scaler :: "dataframe \<Rightarrow> error + rat list"

record artifacts =
  model_young :: "dataframe \<Rightarrow> error + rat"
  model_rest :: "dataframe \<Rightarrow> error + rat"
  scaler_young :: scaler_bundle
  scaler_rest :: scaler_bundle

section \<open>Scaling (\<^verbatim>\<open>handle_scaling\<close>)\<close>

text \<open>Lines 53 to 61: the body of \<^verbatim>\<open>handle_scaling\<close> once the bundle is chosen.\<close>

definition scale_with :: "scaler_bundle \<Rightarrow> dataframe \<Rightarrow> error + dataframe" where
  "scale_with scaler_object df =
     (let cols = cols_to_scale scaler_object;
          df1 = df_setitem df ''income_level'' (VInt 0)
      in case df_select df1 cols of
           Inl e \<Rightarrow> Inl e
         | Inr sub \<Rightarrow>
             (case scaler scaler_object sub of
                Inl e \<Rightarrow> Inl e
              | Inr ys \<Rightarrow>
                  (case df_assign df1 cols ys of
                     Inl e \<Rightarrow> Inl e
                   | Inr df2 \<Rightarrow> df_drop df2 ''income_level'')))"

definition handle_scaling :: "artifacts \<Rightarrow> pyval \<Rightarrow> dataframe \<Rightarrow> error + dataframe" where
  "handle_scaling A age df =
     (case py_le age 25 of
        Inl e \<Rightarrow> Inl e
      | Inr young \<Rightarrow> scale_with (if young then scaler_young A else scaler_rest A) df)"

section \<open>Feature encoding (\<^verbatim>\<open>preprocess_input\<close>)\<close>

definition expected_columns :: "string list" where
  "expected_columns =
     [''age'',
      ''number_of_dependants'',
      ''income_lakhs'',
      ''insurance_plan'',
      ''genetical_risk'',
      ''normalized_risk_score'',
      ''gender_Male'',
      ''region_Northwest'',
      ''region_Southeast'',
      ''region_Southwest'',
      ''marital_status_Unmarried'',
      ''bmi_category_Obesity'',
      ''bmi_category_Overweight'',
      ''bmi_category_Underweight'',
      ''smoking_status_Occasional'',
      ''smoking_status_Regular'',
      ''employment_status_Salaried'',
      ''employment_status_Self-Employed'']"

definition insurance_plan_encoding :: "(string \<times> int) list" where
  "insurance_plan_encoding = [(''Bronze'', 1), (''Silver'', 2), (''Gold'', 3)]"

text \<open>
  \<^verbatim>\<open>value in allowed\<close> for a list of strings, together with the column name
  \<^verbatim>\<open>f"{prefix}{value}"\<close> it then selects: only a string can be in the list.
\<close>

definition one_hot :: "string \<Rightarrow> pyval \<Rightarrow> string list \<Rightarrow> string option" where
  "one_hot prefix v allowed =
     (case v of VStr s \<Rightarrow> if s \<in> set allowed then Some (prefix @ s) else None | _ \<Rightarrow> None)"

text \<open>\<^verbatim>\<open>insurance_plan_encoding.get(value, 1)\<close>: the keys are strings.\<close>

definition plan_code :: "pyval \<Rightarrow> int" where
  "plan_code v = (case v of VStr s \<Rightarrow> dict_get insurance_plan_encoding s 1 | _ \<Rightarrow> 1)"

text \<open>The body of the loop over the items of the input dictionary (lines 91 to 113).\<close>

definition encode_item :: "dataframe \<Rightarrow> string \<times> pyval \<Rightarrow> dataframe" where
  "encode_item df kv =
     (let key = fst kv; v = snd kv in
      if key = ''Gender'' \<and> v = VStr ''Male'' then df_setitem df ''gender_Male'' (VInt 1)
      else if key = ''Region'' then
        (case one_hot ''region_'' v [''Northwest'', ''Southeast'', ''Southwest''] of
           Some col \<Rightarrow> df_setitem df col (VInt 1)
         | None \<Rightarrow> df)
      else if key = ''Marital Status'' \<and> v = VStr ''Unmarried'' then
        df_setitem df ''marital_status_Unmarried'' (VInt 1)
      else if key = ''BMI Category''
          \<and> one_hot ''bmi_category_'' v [''Obesity'', ''Overweight'', ''Underweight''] \<noteq> None then
        df_setitem df
          (the (one_hot ''bmi_category_'' v [''Obesity'', ''Overweight'', ''Underweight''])) (VInt 1)
      else if key = ''Smoking Status''
          \<and> one_hot ''smoking_status_'' v [''Occasional'', ''Regular''] \<noteq> None then
        df_setitem df (the (one_hot ''smoking_status_'' v [''Occasional'', ''Regular''])) (VInt 1)
      else if key = ''Employment Status''
          \<and> one_hot ''employment_status_'' v [''Salaried'', ''Self-Employed''] \<noteq> None then
        df_setitem df
          (the (one_hot ''employment_status_'' v [''Salaried'', ''Self-Employed''])) (VInt 1)
      else if key = ''Insurance Plan'' then df_setitem df ''insurance_plan'' (VInt (plan_code v))
      else if key = ''Age'' then df_setitem df ''age'' v
      else if key = ''Number of Dependants'' then df_setitem df ''number_of_dependants'' v
      else if key = ''Income in Lakhs'' then df_setitem df ''income_lakhs'' v
      else if key = ''Genetical Risk'' then df_setitem df ''genetical_risk'' v
      else df)"

text \<open>The loop itself (line 90), over the items in the order of the dictionary.\<close>

fun encode_items :: "dataframe \<Rightarrow> raw_input \<Rightarrow> dataframe" where
  "encode_items df [] = df"
| "encode_items df (kv # rest) = encode_items (encode_item df kv) rest"

text \<open>
  The call of line 115 on the value found under the key: \<^verbatim>\<open>.lower()\<close> exists on
  strings only.
\<close>

definition risk_of_value :: "pyval \<Rightarrow> error + rat" where
  "risk_of_value v =
     (case v of VStr s \<Rightarrow> Inr (calculate_normalized_risk s) | _ \<Rightarrow> Inl AttributeError)"

text \<open>
  Lines 65 to 115: the Feature Row as it stands before the scaling step, with the risk
  score in place.
\<close>

definition feature_row :: "raw_input \<Rightarrow> error + dataframe" where
  "feature_row input_dict =
     (let df = encode_items (df_new expected_columns) input_dict in
      case dict_getitem input_dict ''Medical History'' of
        Inl e \<Rightarrow> Inl e
      | Inr mh \<Rightarrow>
          (case risk_of_value mh of
             Inl e \<Rightarrow> Inl e
           | Inr r \<Rightarrow> Inr (df_setitem df ''normalized_risk_score'' (VFloat r))))"

definition preprocess_input :: "artifacts \<Rightarrow> raw_input \<Rightarrow> error + dataframe" where
  "preprocess_input A input_dict =
     (case feature_row input_dict of
        Inl e \<Rightarrow> Inl e
      | Inr df \<Rightarrow>
          (case dict_getitem input_dict ''Age'' of
             Inl e \<Rightarrow> Inl e
           | Inr age \<Rightarrow> handle_scaling A age df))"

section \<open>Prediction (\<^verbatim>\<open>predict\<close>)\<close>

text \<open>Lines 124 and 125: the chosen model is run and its first prediction made an integer.\<close>

definition run_model :: "(dataframe \<Rightarrow> error + rat) \<Rightarrow> dataframe \<Rightarrow> error + int" where
  "run_model model input_df =
     (case model input_df of Inl e \<Rightarrow> Inl e | Inr p \<Rightarrow> Inr (py_int p))"

definition predict :: "artifacts \<Rightarrow> raw_input \<Rightarrow> error + int" where
  "predict A input_dict =
     (case preprocess_input A input_dict of
        Inl e \<Rightarrow> Inl e
      | Inr input_df \<Rightarrow>
          (case dict_getitem input_dict ''Age'' of
             Inl e \<Rightarrow> Inl e
           | Inr age \<Rightarrow>
               (case py_le age 25 of
                  Inl e \<Rightarrow> Inl e
                | Inr young \<Rightarrow> run_model (if young then model_young A else model_rest A) input_df)))"

section \<open>Sample artifacts\<close>

text \<open>
  The loaded artifacts are parameters of every statement below. A concrete set of them is
  needed to run the functions on examples: scalers that divide every selected cell by a
  fixed number and refuse strings, and models that return a constant.
\<close>

fun cell_number :: "pyval \<Rightarrow> rat option" where
  "cell_number (VInt i) = Some (of_int i)"
| "cell_number (VFloat r) = Some r"
| "cell_number (VStr s) = None"

fun sample_transform :: "rat \<Rightarrow> dataframe \<Rightarrow> error + rat list" where
  "sample_transform q [] = Inr []"
| "sample_transform q ((c, v) # sub) =
     (case cell_number v of
        None \<Rightarrow> Inl ValueError
      | Some x \<Rightarrow> (case sample_transform q sub of Inl e \<Rightarrow> Inl e | Inr ys \<Rightarrow> Inr (x / q # ys)))"

definition sample_cols :: "string list" where
  "sample_cols =
     [''age'', ''number_of_dependants'', ''income_level'', ''income_lakhs'', ''insurance_plan'',
      ''genetical_risk'']"

definition sample_artifacts :: artifacts where
  "sample_artifacts =
     \<lparr>model_young = (\<lambda>df. Inr (12345 / 10)),
      model_rest = (\<lambda>df. Inr (67891 / 10)),
      scaler_young = \<lparr>cols_to_scale = sample_cols, scaler = sample_transform 10\<rparr>,
      scaler_rest = \<lparr>cols_to_scale = sample_cols, scaler = sample_transform 100\<rparr>\<rparr>"

text \<open>The input of the specification's worked example.\<close>

definition sample_input :: raw_input where
  "sample_input =
     [(''Age'', VInt 22),
      (''Gender'', VStr ''Male''),
      (''Region'', VStr ''Southeast''),
      (''Marital Status'', VStr ''Unmarried''),
      (''BMI Category'', VStr ''Normal''),
      (''Smoking Status'', VStr ''Never''),
      (''Employment Status'', VStr ''Salaried''),
      (''Insurance Plan'', VStr ''Gold''),
      (''Number of Dependants'', VInt 2),
      (''Income in Lakhs'', VInt 10),
      (''Genetical Risk'', VInt 3),
      (''Medical History'', VStr ''diabetes'')]"

text \<open>The Feature Row of that input before scaling, and after scaling with the sample artifacts.\<close>

definition sample_row :: dataframe where
  "sample_row =
     [(''age'', VInt 22), (''number_of_dependants'', VInt 2), (''income_lakhs'', VInt 10),
      (''insurance_plan'', VInt 3), (''genetical_risk'', VInt 3),
      (''normalized_risk_score'', VFloat (3 / 7)), (''gender_Male'', VInt 1),
      (''region_Northwest'', VInt 0), (''region_Southeast'', VInt 1),
      (''region_Southwest'', VInt 0), (''marital_status_Unmarried'', VInt 1),
      (''bmi_category_Obesity'', VInt 0), (''bmi_category_Overweight'', VInt 0),
      (''bmi_category_Underweight'', VInt 0), (''smoking_status_Occasional'', VInt 0),
      (''smoking_status_Regular'', VInt 0), (''employment_status_Salaried'', VInt 1),
      (''employment_status_Self-Employed'', VInt 0)]"

definition sample_scaled :: dataframe where
  "sample_scaled =
     [(''age'', VFloat (11 / 5)), (''number_of_dependants'', VFloat (1 / 5)),
      (''income_lakhs'', VFloat 1), (''insurance_plan'', VFloat (3 / 10)),
      (''genetical_risk'', VFloat (3 / 10)),
      (''normalized_risk_score'', VFloat (3 / 7)), (''gender_Male'', VInt 1),
      (''region_Northwest'', VInt 0), (''region_Southeast'', VInt 1),
      (''region_Southwest'', VInt 0), (''marital_status_Unmarried'', VInt 1),
      (''bmi_category_Obesity'', VInt 0), (''bmi_category_Overweight'', VInt 0),
      (''bmi_category_Underweight'', VInt 0), (''smoking_status_Occasional'', VInt 0),
      (''smoking_status_Regular'', VInt 0), (''employment_status_Salaried'', VInt 1),
      (''employment_status_Self-Employed'', VInt 0)]"

section \<open>Which key writes which column\<close>

text \<open>
  The keys the loop reacts to, the columns each of them can write, and for every column
  the one key that can write it. The loop body is checked against these tables below.
\<close>

definition recognized_keys :: "string list" where
  "recognized_keys =
     [''Gender'', ''Region'', ''Marital Status'', ''BMI Category'', ''Smoking Status'',
      ''Employment Status'', ''Insurance Plan'', ''Age'', ''Number of Dependants'',
      ''Income in Lakhs'', ''Genetical Risk'']"

definition written_cols :: "string \<Rightarrow> string list" where
  "written_cols key =
     (if key = ''Gender'' then [''gender_Male'']
      else if key = ''Region'' then [''region_Northwest'', ''region_Southeast'', ''region_Southwest'']
      else if key = ''Marital Status'' then [''marital_status_Unmarried'']
      else if key = ''BMI Category'' then
        [''bmi_category_Obesity'', ''bmi_category_Overweight'', ''bmi_category_Underweight'']
      else if key = ''Smoking Status'' then [''smoking_status_Occasional'', ''smoking_status_Regular'']
      else if key = ''Employment Status'' then
        [''employment_status_Salaried'', ''employment_status_Self-Employed'']
      else if key = ''Insurance Plan'' then [''insurance_plan'']
      else if key = ''Age'' then [''age'']
      else if key = ''Number of Dependants'' then [''number_of_dependants'']
      else if key = ''Income in Lakhs'' then [''income_lakhs'']
      else if key = ''Genetical Risk'' then [''genetical_risk'']
      else [])"

definition column_owner :: "(string \<times> string) list" where
  "column_owner =
     [(''gender_Male'', ''Gender''),
      (''region_Northwest'', ''Region''),
      (''region_Southeast'', ''Region''),
      (''region_Southwest'', ''Region''),
      (''marital_status_Unmarried'', ''Marital Status''),
      (''bmi_category_Obesity'', ''BMI Category''),
      (''bmi_category_Overweight'', ''BMI Category''),
      (''bmi_category_Underweight'', ''BMI Category''),
      (''smoking_status_Occasional'', ''Smoking Status''),
      (''smoking_status_Regular'', ''Smoking Status''),
      (''employment_status_Salaried'', ''Employment Status''),
      (''employment_status_Self-Employed'', ''Employment Status''),
      (''insurance_plan'', ''Insurance Plan''),
      (''age'', ''Age''),
      (''number_of_dependants'', ''Number of Dependants''),
      (''income_lakhs'', ''Income in Lakhs''),
      (''genetical_risk'', ''Genetical Risk'')]"

text \<open>
  The categorical keys that are one-hot encoded, each with the values the specification
  says are recognized; any other value of such a key is an unrecognized categorical value.
\<close>

definition one_hot_values :: "(string \<times> string list) list" where
  "one_hot_values =
     [(''Gender'', [''Male'']),
      (''Region'', [''Northwest'', ''Southeast'', ''Southwest'']),
      (''Marital Status'', [''Unmarried'']),
      (''BMI Category'', [''Obesity'', ''Overweight'', ''Underweight'']),
      (''Smoking Status'', [''Occasional'', ''Regular'']),
      (''Employment Status'', [''Salaried'', ''Self-Employed''])]"

section \<open>Data frames and the loop body\<close>

lemma columns_setitem:
  "columns (df_setitem df c v) = (if c \<in> set (columns df) then columns df else columns df @ [c])"
  by (simp add: columns_def df_setitem_def update_keys)

lemma lookup_setitem: "map_of (df_setitem df c v) = (map_of df)(c \<mapsto> v)"
  by (simp add: df_setitem_def update_conv')

lemma encode_item_Gender:
  "encode_item df (''Gender'', v)
     = (if v = VStr ''Male'' then df_setitem df ''gender_Male'' (VInt 1) else df)"
  by (simp add: encode_item_def)

lemma encode_item_Region:
  "encode_item df (''Region'', v)
     = (case one_hot ''region_'' v [''Northwest'', ''Southeast'', ''Southwest''] of
          Some col \<Rightarrow> df_setitem df col (VInt 1) | None \<Rightarrow> df)"
  by (simp add: encode_item_def)

lemma encode_item_Marital:
  "encode_item df (''Marital Status'', v)
     = (if v = VStr ''Unmarried'' then df_setitem df ''marital_status_Unmarried'' (VInt 1) else df)"
  by (simp add: encode_item_def)

lemma encode_item_BMI:
  "encode_item df (''BMI Category'', v)
     = (case one_hot ''bmi_category_'' v [''Obesity'', ''Overweight'', ''Underweight''] of
          Some col \<Rightarrow> df_setitem df col (VInt 1) | None \<Rightarrow> df)"
  by (simp add: encode_item_def split: option.splits)

lemma encode_item_Smoking:
  "encode_item df (''Smoking Status'', v)
     = (case one_hot ''smoking_status_'' v [''Occasional'', ''Regular''] of
          Some col \<Rightarrow> df_setitem df col (VInt 1) | None \<Rightarrow> df)"
  by (simp add: encode_item_def split: option.splits)

lemma encode_item_Employment:
  "encode_item df (''Employment Status'', v)
     = (case one_hot ''employment_status_'' v [''Salaried'', ''Self-Employed''] of
          Some col \<Rightarrow> df_setitem df col (VInt 1) | None \<Rightarrow> df)"
  by (simp add: encode_item_def split: option.splits)

lemma encode_item_Plan:
  "encode_item df (''Insurance Plan'', v) = df_setitem df ''insurance_plan'' (VInt (plan_code v))"
  by (simp add: encode_item_def)

lemma encode_item_Age: "encode_item df (''Age'', v) = df_setitem df ''age'' v"
  by (simp add: encode_item_def)

lemma encode_item_Dependants:
  "encode_item df (''Number of Dependants'', v) = df_setitem df ''number_of_dependants'' v"
  by (simp add: encode_item_def)

lemma encode_item_Income:
  "encode_item df (''Income in Lakhs'', v) = df_setitem df ''income_lakhs'' v"
  by (simp add: encode_item_def)

lemma encode_item_Genetical:
  "encode_item df (''Genetical Risk'', v) = df_setitem df ''genetical_risk'' v"
  by (simp add: encode_item_def)

lemma encode_item_other: "key \<notin> set recognized_keys \<Longrightarrow> encode_item df (key, v) = df"
  by (simp add: encode_item_def recognized_keys_def)

lemmas encode_item_key =
  encode_item_Gender encode_item_Region encode_item_Marital encode_item_BMI
  encode_item_Smoking encode_item_Employment encode_item_Plan encode_item_Age
  encode_item_Dependants encode_item_Income encode_item_Genetical



lemma key_cases:
  obtains "k = ''Gender''" | "k = ''Region''" | "k = ''Marital Status''" | "k = ''BMI Category''"
    | "k = ''Smoking Status''" | "k = ''Employment Status''" | "k = ''Insurance Plan''"
    | "k = ''Age''" | "k = ''Number of Dependants''" | "k = ''Income in Lakhs''"
    | "k = ''Genetical Risk''" | "k \<notin> set recognized_keys"
  unfolding recognized_keys_def by auto

lemma one_hot_cases:
  "one_hot prefix v allowed = None
   \<or> (\<exists>s \<in> set allowed. v = VStr s \<and> one_hot prefix v allowed = Some (prefix @ s))"
  by (simp add: one_hot_def split: pyval.splits)

lemma encode_item_effect:
  "encode_item df (k, v)
     = (case encode_item [] (k, v) of [] \<Rightarrow> df | (c, x) # _ \<Rightarrow> df_setitem df c x)"
  by (rule key_cases [of k])
    (simp_all add: encode_item_key encode_item_other df_setitem_def split: option.splits)


lemma one_hot_written:
  "one_hot ''region_'' v [''Northwest'', ''Southeast'', ''Southwest''] = Some col
     \<Longrightarrow> col \<in> set (written_cols ''Region'')"
  "one_hot ''bmi_category_'' v [''Obesity'', ''Overweight'', ''Underweight''] = Some col
     \<Longrightarrow> col \<in> set (written_cols ''BMI Category'')"
  "one_hot ''smoking_status_'' v [''Occasional'', ''Regular''] = Some col
     \<Longrightarrow> col \<in> set (written_cols ''Smoking Status'')"
  "one_hot ''employment_status_'' v [''Salaried'', ''Self-Employed''] = Some col
     \<Longrightarrow> col \<in> set (written_cols ''Employment Status'')"
  by (auto simp add: one_hot_def written_cols_def split: pyval.splits if_splits)

lemma encode_item_empty:
  "encode_item [] (k, v) = []
   \<or> (\<exists>c \<in> set (written_cols k). \<exists>x. encode_item [] (k, v) = [(c, x)])"
proof (rule key_cases [of k])
  assume "k = ''Gender''"
  then show ?thesis by (simp add: encode_item_Gender df_setitem_def written_cols_def)
next
  assume "k = ''Region''"
  then show ?thesis
    by (auto simp add: encode_item_Region df_setitem_def dest: one_hot_written(1)
        split: option.splits)
next
  assume "k = ''Marital Status''"
  then show ?thesis by (simp add: encode_item_Marital df_setitem_def written_cols_def)
next
  assume "k = ''BMI Category''"
  then show ?thesis
    by (auto simp add: encode_item_BMI df_setitem_def dest: one_hot_written(2)
        split: option.splits)
next
  assume "k = ''Smoking Status''"
  then show ?thesis
    by (auto simp add: encode_item_Smoking df_setitem_def dest: one_hot_written(3)
        split: option.splits)
next
  assume "k = ''Employment Status''"
  then show ?thesis
    by (auto simp add: encode_item_Employment df_setitem_def dest: one_hot_written(4)
        split: option.splits)
next
  assume "k = ''Insurance Plan''"
  then show ?thesis by (simp add: encode_item_Plan df_setitem_def written_cols_def)
next
  assume "k = ''Age''"
  then show ?thesis by (simp add: encode_item_Age df_setitem_def written_cols_def)
next
  assume "k = ''Number of Dependants''"
  then show ?thesis by (simp add: encode_item_Dependants df_setitem_def written_cols_def)
next
  assume "k = ''Income in Lakhs''"
  then show ?thesis by (simp add: encode_item_Income df_setitem_def written_cols_def)
next
  assume "k = ''Genetical Risk''"
  then show ?thesis by (simp add: encode_item_Genetical df_setitem_def written_cols_def)
next
  assume "k \<notin> set recognized_keys"
  then show ?thesis by (simp add: encode_item_other)
qed


lemma written_cols_other: "k \<notin> set recognized_keys \<Longrightarrow> written_cols k = []"
  by (simp add: written_cols_def recognized_keys_def)

lemma written_cols_simps:
  "written_cols ''Gender'' = [''gender_Male'']"
  "written_cols ''Region'' = [''region_Northwest'', ''region_Southeast'', ''region_Southwest'']"
  "written_cols ''Marital Status'' = [''marital_status_Unmarried'']"
  "written_cols ''BMI Category''
     = [''bmi_category_Obesity'', ''bmi_category_Overweight'', ''bmi_category_Underweight'']"
  "written_cols ''Smoking Status'' = [''smoking_status_Occasional'', ''smoking_status_Regular'']"
  "written_cols ''Employment Status''
     = [''employment_status_Salaried'', ''employment_status_Self-Employed'']"
  "written_cols ''Insurance Plan'' = [''insurance_plan'']"
  "written_cols ''Age'' = [''age'']"
  "written_cols ''Number of Dependants'' = [''number_of_dependants'']"
  "written_cols ''Income in Lakhs'' = [''income_lakhs'']"
  "written_cols ''Genetical Risk'' = [''genetical_risk'']"
  by (simp_all add: written_cols_def)



lemma written_cols_owner_all: "\<forall>c \<in> set (written_cols k). map_of column_owner c = Some k"
  by (rule key_cases [of k])
    (simp_all add: written_cols_simps written_cols_other column_owner_def)

lemma written_cols_expected: "set (written_cols k) \<subseteq> set expected_columns"
  by (rule key_cases [of k])
    (simp_all add: written_cols_simps written_cols_other expected_columns_def)

lemma written_cols_disjoint:
  "c \<in> set (written_cols k) \<Longrightarrow> c \<in> set (written_cols k') \<Longrightarrow> k = k'"
  using written_cols_owner_all [of k] written_cols_owner_all [of k'] by fastforce

lemma written_cols_not_risk: "''normalized_risk_score'' \<notin> set (written_cols k)"
proof
  assume "''normalized_risk_score'' \<in> set (written_cols k)"
  then have "map_of column_owner ''normalized_risk_score'' = Some k"
    using written_cols_owner_all [of k] by blast
  then show False by (simp add: column_owner_def)
qed

lemma alist_eqI:
  "map fst xs = map fst ys \<Longrightarrow> distinct (map fst xs) \<Longrightarrow> map_of xs = map_of ys \<Longrightarrow> xs = ys"
proof (induction xs arbitrary: ys)
  case Nil
  then show ?case by simp
next
  case (Cons x xs)
  then obtain y ys' where ys: "ys = y # ys'" by (cases ys) auto
  obtain k v where x: "x = (k, v)" by (cases x)
  obtain w where y: "y = (k, w)" using Cons.prems(1) ys x by (cases y) auto
  have keys: "map fst xs = map fst ys'" using Cons.prems(1) ys by simp
  have kx: "k \<notin> set (map fst xs)" using Cons.prems(2) x by simp
  have ky: "k \<notin> set (map fst ys')" using kx unfolding keys .
  have nx: "map_of xs k = None" using kx by (simp add: map_of_eq_None_iff)
  have ny: "map_of ys' k = None" using ky by (simp add: map_of_eq_None_iff)
  have "map_of (x # xs) k = map_of ys k" by (rule fun_cong [OF Cons.prems(3)])
  then have vw: "v = w" by (simp add: x y ys)
  have "map_of xs = map_of ys'"
  proof
    fix a
    show "map_of xs a = map_of ys' a"
    proof (cases "a = k")
      case True
      with nx ny show ?thesis by simp
    next
      case False
      have "map_of (x # xs) a = map_of ys a" by (rule fun_cong [OF Cons.prems(3)])
      then show ?thesis using False by (simp add: x y ys)
    qed
  qed
  moreover have "distinct (map fst xs)" using Cons.prems(2) by simp
  ultimately have "xs = ys'" using Cons.IH [OF keys] by simp
  then show ?case by (simp add: x y ys vw)
qed

lemma encode_item_map:
  "map_of (encode_item df (k, v)) = map_of df ++ map_of (encode_item [] (k, v))"
proof -
  consider "encode_item [] (k, v) = []"
    | c x where "encode_item [] (k, v) = [(c, x)]"
    using encode_item_empty [of k v] by blast
  then show ?thesis
  proof cases
    case 1
    then have "encode_item df (k, v) = df" using encode_item_effect [of df k v] by simp
    with 1 show ?thesis by simp
  next
    case 2
    then have "encode_item df (k, v) = df_setitem df c x"
      using encode_item_effect [of df k v] by simp
    with 2 show ?thesis by (simp add: lookup_setitem)
  qed
qed

lemma encode_item_dom: "dom (map_of (encode_item [] (k, v))) \<subseteq> set (written_cols k)"
proof -
  consider "encode_item [] (k, v) = []"
    | c x where "c \<in> set (written_cols k)" "encode_item [] (k, v) = [(c, x)]"
    using encode_item_empty [of k v] by blast
  then show ?thesis
  proof cases
    case 1
    then show ?thesis by simp
  next
    case 2
    then show ?thesis by (simp add: dom_def)
  qed
qed


lemma encode_item_columns:
  assumes "set expected_columns \<subseteq> set (columns df)"
  shows "columns (encode_item df (k, v)) = columns df"
proof -
  consider "encode_item [] (k, v) = []"
    | c x where "c \<in> set (written_cols k)" "encode_item [] (k, v) = [(c, x)]"
    using encode_item_empty [of k v] by blast
  then show ?thesis
  proof cases
    case 1
    then show ?thesis using encode_item_effect [of df k v] by simp
  next
    case 2
    then have "encode_item df (k, v) = df_setitem df c x"
      using encode_item_effect [of df k v] by simp
    moreover have "c \<in> set (columns df)"
      using 2(1) written_cols_expected [of k] assms by blast
    ultimately show ?thesis by (simp add: columns_setitem)
  qed
qed

lemma encode_item_frame:
  assumes "c \<notin> set (written_cols k)"
  shows "map_of (encode_item df (k, v)) c = map_of df c"
proof -
  have "c \<notin> dom (map_of (encode_item [] (k, v)))"
    using assms encode_item_dom [of k v] by blast
  then have "(map_of df ++ map_of (encode_item [] (k, v))) c = map_of df c"
    by (rule map_add_dom_app_simps(3))
  then show ?thesis by (simp only: encode_item_map [of df k v])
qed

lemma encode_items_append:
  "encode_items df (xs @ ys) = encode_items (encode_items df xs) ys"
  by (induction xs arbitrary: df) simp_all

lemma encode_items_columns:
  "set expected_columns \<subseteq> set (columns df) \<Longrightarrow> columns (encode_items df d) = columns df"
proof (induction d arbitrary: df)
  case Nil
  show ?case by simp
next
  case (Cons kv d)
  obtain k v where kv: "kv = (k, v)" by (cases kv)
  have step: "columns (encode_item df kv) = columns df"
    unfolding kv using Cons.prems by (rule encode_item_columns)
  then have "set expected_columns \<subseteq> set (columns (encode_item df kv))"
    using Cons.prems by simp
  then have "columns (encode_items (encode_item df kv) d) = columns (encode_item df kv)"
    by (rule Cons.IH)
  with step show ?case by simp
qed

lemma encode_items_frame:
  "\<forall>kv \<in> set d. c \<notin> set (written_cols (fst kv))
     \<Longrightarrow> map_of (encode_items df d) c = map_of df c"
proof (induction d arbitrary: df)
  case Nil
  show ?case by simp
next
  case (Cons kv d)
  obtain k v where kv: "kv = (k, v)" by (cases kv)
  have "c \<notin> set (written_cols k)" using Cons.prems by (simp add: kv)
  then have "map_of (encode_item df kv) c = map_of df c"
    unfolding kv by (rule encode_item_frame)
  moreover have "\<forall>kv \<in> set d. c \<notin> set (written_cols (fst kv))" using Cons.prems by simp
  then have "map_of (encode_items (encode_item df kv) d) c = map_of (encode_item df kv) c"
    by (rule Cons.IH)
  ultimately show ?case by simp
qed


lemma encode_items_map:
  "map_of (encode_items df d)
     = fold (\<lambda>kv m. m ++ map_of (encode_item [] kv)) d (map_of df)"
proof (induction d arbitrary: df)
  case Nil
  show ?case by simp
next
  case (Cons kv d)
  obtain k v where kv: "kv = (k, v)" by (cases kv)
  have "map_of (encode_items (encode_item df kv) d)
      = fold (\<lambda>kv m. m ++ map_of (encode_item [] kv)) d (map_of (encode_item df kv))"
    by (rule Cons.IH)
  also have "map_of (encode_item df kv) = map_of df ++ map_of (encode_item [] kv)"
    unfolding kv by (rule encode_item_map)
  finally show ?case by simp
qed

lemma item_effects_commute:
  assumes "fst a = fst b \<longrightarrow> a = b"
  shows "(\<lambda>m. m ++ map_of (encode_item [] a)) \<circ> (\<lambda>m. m ++ map_of (encode_item [] b))
       = (\<lambda>m. m ++ map_of (encode_item [] b)) \<circ> (\<lambda>m. m ++ map_of (encode_item [] a))"
proof (cases "a = b")
  case True
  then show ?thesis by simp
next
  case False
  obtain k v where a: "a = (k, v)" by (cases a)
  obtain k' v' where b: "b = (k', v')" by (cases b)
  have "k \<noteq> k'" using assms False by (auto simp add: a b)
  then have "set (written_cols k) \<inter> set (written_cols k') = {}"
    using written_cols_disjoint by blast
  then have "dom (map_of (encode_item [] a)) \<inter> dom (map_of (encode_item [] b)) = {}"
    using encode_item_dom [of k v] encode_item_dom [of k' v'] unfolding a b by blast
  then have comm: "map_of (encode_item [] a) ++ map_of (encode_item [] b)
      = map_of (encode_item [] b) ++ map_of (encode_item [] a)"
    by (rule map_add_comm)
  show ?thesis
  proof (rule ext)
    fix m :: "string \<rightharpoonup> pyval"
    have "(m ++ map_of (encode_item [] b)) ++ map_of (encode_item [] a)
        = m ++ (map_of (encode_item [] b) ++ map_of (encode_item [] a))"
      by (simp only: map_add_assoc)
    also have "\<dots> = m ++ (map_of (encode_item [] a) ++ map_of (encode_item [] b))"
      by (simp only: comm)
    also have "\<dots> = (m ++ map_of (encode_item [] a)) ++ map_of (encode_item [] b)"
      by (simp only: map_add_assoc)
    finally show "((\<lambda>m. m ++ map_of (encode_item [] a)) \<circ> (\<lambda>m. m ++ map_of (encode_item [] b))) m
        = ((\<lambda>m. m ++ map_of (encode_item [] b)) \<circ> (\<lambda>m. m ++ map_of (encode_item [] a))) m"
      by (simp only: comp_apply)
  qed
qed

lemma encode_items_order:
  assumes "wf_dict d1" and "wf_dict d2" and "set d1 = set d2"
    and "set expected_columns \<subseteq> set (columns df)" and "distinct (columns df)"
  shows "encode_items df d1 = encode_items df d2"
proof (rule alist_eqI)
  show "map fst (encode_items df d1) = map fst (encode_items df d2)"
    using encode_items_columns [OF assms(4), of d1] encode_items_columns [OF assms(4), of d2]
    by (simp add: columns_def)
  show "distinct (map fst (encode_items df d1))"
    using encode_items_columns [OF assms(4), of d1] assms(5) by (simp add: columns_def)
  have "distinct d1" "distinct d2"
    using assms(1,2) by (simp_all add: wf_dict_def distinct_map)
  then have "mset d1 = mset d2"
    using assms(3) by (simp add: set_eq_iff_mset_eq_distinct)
  moreover have "\<And>a b. a \<in> set d1 \<Longrightarrow> b \<in> set d1 \<Longrightarrow> fst a = fst b \<longrightarrow> a = b"
    using assms(1) by (auto simp add: wf_dict_def distinct_map dest: inj_onD)
  ultimately have "fold (\<lambda>kv m. m ++ map_of (encode_item [] kv)) d1
      = fold (\<lambda>kv m. m ++ map_of (encode_item [] kv)) d2"
    by (intro fold_multiset_equiv item_effects_commute)
  then show "map_of (encode_items df d1) = map_of (encode_items df d2)"
    by (simp only: encode_items_map)
qed

lemma columns_df_new: "columns (df_new cols) = cols"
  by (simp add: columns_def df_new_def comp_def)

lemma map_of_df_new: "map_of (df_new cols) c = (if c \<in> set cols then Some (VInt 0) else None)"
  by (induction cols) (simp_all add: df_new_def)

lemma distinct_expected_columns: "distinct expected_columns"
  by (simp add: expected_columns_def)

lemma length_expected_columns: "length expected_columns = 18"
  by (simp add: expected_columns_def)

lemma encode_items_absent:
  assumes "k \<notin> fst ` set d" and "c \<in> set (written_cols k)"
  shows "map_of (encode_items df d) c = map_of df c"
proof (rule encode_items_frame, rule ballI)
  fix kv
  assume "kv \<in> set d"
  then have "fst kv \<noteq> k" using assms(1) by auto
  then show "c \<notin> set (written_cols (fst kv))"
    using assms(2) written_cols_disjoint by blast
qed

lemma encode_items_key:
  assumes "wf_dict d" and "map_of d k = Some v" and "c \<in> set (written_cols k)"
  shows "map_of (encode_items df d) c = map_of (encode_item df (k, v)) c"
proof -
  have "(k, v) \<in> set d" using assms(2) by (rule map_of_SomeD)
  then obtain xs ys where d: "d = xs @ (k, v) # ys" by (auto dest: split_list)
  have kx: "k \<notin> fst ` set xs" and ky: "k \<notin> fst ` set ys"
    using assms(1) unfolding wf_dict_def d by auto
  have before: "map_of (encode_items df xs) c = map_of df c"
    using kx assms(3) by (rule encode_items_absent)
  have "map_of (encode_items df d) c
      = map_of (encode_items (encode_item (encode_items df xs) (k, v)) ys) c"
    by (simp add: d encode_items_append)
  also have "\<dots> = map_of (encode_item (encode_items df xs) (k, v)) c"
    using ky assms(3) by (rule encode_items_absent)
  also have "\<dots> = (map_of (encode_items df xs) ++ map_of (encode_item [] (k, v))) c"
    by (simp only: encode_item_map [of "encode_items df xs" k v])
  also have "\<dots> = (map_of df ++ map_of (encode_item [] (k, v))) c"
    using before by (simp add: map_add_def split: option.splits)
  also have "\<dots> = map_of (encode_item df (k, v)) c"
    by (simp only: encode_item_map [of df k v])
  finally show ?thesis .
qed

lemma feature_row_lookup:
  assumes "feature_row d = Inr row" and "c \<noteq> ''normalized_risk_score''"
  shows "map_of row c = map_of (encode_items (df_new expected_columns) d) c"
  using assms
  by (auto simp add: feature_row_def Let_def lookup_setitem split: sum.splits)

lemma plan_code_cases:
  "plan_code v = (if v = VStr ''Bronze'' then 1 else if v = VStr ''Silver'' then 2
                  else if v = VStr ''Gold'' then 3 else 1)"
  by (simp add: plan_code_def dict_get_def insurance_plan_encoding_def split: pyval.splits)

section \<open>The risk score\<close>

lemma dict_get_risk_scores: "dict_get risk_scores name 0 = spec_weight name"
  by (simp add: dict_get_def risk_scores_def spec_weight_def)

text \<open>
  Claim C1. For every medical-history string, the risk score is the sum of the weights of
  the parts of the lowercased string split at \<open>'' & ''\<close>, with the weights diabetes 6,
  heart disease 8, high blood pressure 6, thyroid 5, no disease 0, none 0 and 0 for any
  other part, divided by 14; the score of \<open>''none''\<close> is 0 and the score of
  \<open>''heart disease & diabetes''\<close> is 1. Lowercasing turns every capital letter into its
  small letter and leaves the other characters alone, so that names match whatever their
  case: \<open>''Diabetes''\<close> scores 6/14, \<open>''Heart Disease & DIABETES''\<close> scores 1, a name
  outside the table scores 0, and so does a string that joins two names without the blanks
  of the separator.
\<close>

theorem calculate_normalized_risk_formula:
  "calculate_normalized_risk s
     = of_int (sum_list (map spec_weight (py_split '' & '' (lower s)))) / 14
   \<and> calculate_normalized_risk ''none'' = 0
   \<and> calculate_normalized_risk ''heart disease & diabetes'' = 1
   \<and> lower ''ABCDEFGHIJKLMNOPQRSTUVWXYZ'' = ''abcdefghijklmnopqrstuvwxyz''
   \<and> lower ''abcdefghijklmnopqrstuvwxyz & 0123456789''
       = ''abcdefghijklmnopqrstuvwxyz & 0123456789''
   \<and> py_split '' & '' (lower ''Heart Disease & DIABETES'') = [''heart disease'', ''diabetes'']
   \<and> calculate_normalized_risk ''Diabetes'' = 6 / 14
   \<and> calculate_normalized_risk ''Heart Disease & DIABETES'' = 1
   \<and> calculate_normalized_risk ''THYROID & High Blood Pressure & No Disease'' = 11 / 14
   \<and> calculate_normalized_risk ''diabetes & cancer'' = 6 / 14
   \<and> calculate_normalized_risk ''diabetes&thyroid'' = 0
   \<and> calculate_normalized_risk [] = 0"
proof -
  have general: "\<And>t. calculate_normalized_risk t
      = of_int (sum_list (map spec_weight (py_split '' & '' (lower t)))) / 14"
    by (simp add: calculate_normalized_risk_def Let_def dict_get_risk_scores)
  have none: "py_split '' & '' (lower ''none'') = [''none'']"
    by (simp add: py_split_def lower_def lower_char_def)
  have two: "py_split '' & '' (lower ''heart disease & diabetes'')
      = [''heart disease'', ''diabetes'']"
    by (simp add: py_split_def lower_def lower_char_def)
  have upper: "lower ''ABCDEFGHIJKLMNOPQRSTUVWXYZ'' = ''abcdefghijklmnopqrstuvwxyz''"
    by (simp add: lower_def lower_char_def)
  have others: "lower ''abcdefghijklmnopqrstuvwxyz & 0123456789''
      = ''abcdefghijklmnopqrstuvwxyz & 0123456789''"
    by (simp add: lower_def lower_char_def)
  have capital: "py_split '' & '' (lower ''Diabetes'') = [''diabetes'']"
    by (simp add: py_split_def lower_def lower_char_def)
  have mixed: "py_split '' & '' (lower ''Heart Disease & DIABETES'')
      = [''heart disease'', ''diabetes'']"
    by (simp add: py_split_def lower_def lower_char_def)
  have three: "py_split '' & '' (lower ''THYROID & High Blood Pressure & No Disease'')
      = [''thyroid'', ''high blood pressure'', ''no disease'']"
    by (simp add: py_split_def lower_def lower_char_def)
  have unknown: "py_split '' & '' (lower ''diabetes & cancer'') = [''diabetes'', ''cancer'']"
    by (simp add: py_split_def lower_def lower_char_def)
  have glued: "py_split '' & '' (lower ''diabetes&thyroid'') = [''diabetes&thyroid'']"
    by (simp add: py_split_def lower_def lower_char_def)
  have empty: "py_split '' & '' (lower []) = [[]]"
    by (simp add: py_split_def lower_def)
  have "calculate_normalized_risk ''none'' = 0"
    unfolding general none by (simp add: spec_weight_def)
  moreover have "calculate_normalized_risk ''heart disease & diabetes'' = 1"
    unfolding general two by (simp add: spec_weight_def)
  moreover have "calculate_normalized_risk ''Diabetes'' = 6 / 14"
    unfolding general capital by (simp add: spec_weight_def)
  moreover have "calculate_normalized_risk ''Heart Disease & DIABETES'' = 1"
    unfolding general mixed by (simp add: spec_weight_def)
  moreover have "calculate_normalized_risk ''THYROID & High Blood Pressure & No Disease''
      = 11 / 14"
    unfolding general three by (simp add: spec_weight_def)
  moreover have "calculate_normalized_risk ''diabetes & cancer'' = 6 / 14"
    unfolding general unknown by (simp add: spec_weight_def)
  moreover have "calculate_normalized_risk ''diabetes&thyroid'' = 0"
    unfolding general glued by (simp add: spec_weight_def)
  moreover have "calculate_normalized_risk [] = 0"
    unfolding general empty by (simp add: spec_weight_def)
  ultimately show ?thesis using general upper others mixed by blast
qed

section \<open>The insurance plan field\<close>

text \<open>
  Claim C7. For every Raw Input mapping that contains the key \<open>''Insurance Plan''\<close>, the
  \<open>insurance_plan\<close> field of the Feature Row is 1 for the value \<open>''Bronze''\<close>, 2 for
  \<open>''Silver''\<close>, 3 for \<open>''Gold''\<close> and 1 for any other value. This holds of the row the
  loop builds and of the row with the risk score in place, before the scaling step.
\<close>

theorem insurance_plan_field:
  assumes "wf_dict d" and "map_of d ''Insurance Plan'' = Some v"
  shows "map_of (encode_items (df_new expected_columns) d) ''insurance_plan''
           = Some (VInt (if v = VStr ''Bronze'' then 1 else if v = VStr ''Silver'' then 2
                         else if v = VStr ''Gold'' then 3 else 1))
       \<and> (\<forall>row. feature_row d = Inr row \<longrightarrow>
            map_of row ''insurance_plan''
              = Some (VInt (if v = VStr ''Bronze'' then 1 else if v = VStr ''Silver'' then 2
                            else if v = VStr ''Gold'' then 3 else 1)))"
proof -
  have "''insurance_plan'' \<in> set (written_cols ''Insurance Plan'')"
    by (simp add: written_cols_simps)
  with assms have "map_of (encode_items (df_new expected_columns) d) ''insurance_plan''
      = map_of (encode_item (df_new expected_columns) (''Insurance Plan'', v)) ''insurance_plan''"
    by (rule encode_items_key)
  also have "\<dots> = Some (VInt (plan_code v))"
    by (simp add: encode_item_Plan lookup_setitem)
  finally have loop: "map_of (encode_items (df_new expected_columns) d) ''insurance_plan''
      = Some (VInt (if v = VStr ''Bronze'' then 1 else if v = VStr ''Silver'' then 2
                    else if v = VStr ''Gold'' then 3 else 1))"
    by (simp only: plan_code_cases)
  moreover have "map_of row ''insurance_plan''
      = map_of (encode_items (df_new expected_columns) d) ''insurance_plan''"
    if "feature_row d = Inr row" for row
    using that by (rule feature_row_lookup) simp
  ultimately show ?thesis by simp
qed

theorem insurance_plan_field_witness:
  "wf_dict [(''Age'', VInt 30), (''Insurance Plan'', VStr ''Gold''), (''Medical History'', VStr ''none'')]
   \<and> map_of [(''Age'', VInt 30), (''Insurance Plan'', VStr ''Gold''), (''Medical History'', VStr ''none'')]
        ''Insurance Plan'' = Some (VStr ''Gold'')
   \<and> map_of (encode_items (df_new expected_columns)
        [(''Age'', VInt 30), (''Insurance Plan'', VStr ''Gold''), (''Medical History'', VStr ''none'')])
        ''insurance_plan'' = Some (VInt 3)"
proof -
  have wf: "wf_dict [(''Age'', VInt 30), (''Insurance Plan'', VStr ''Gold''),
      (''Medical History'', VStr ''none'')]"
    by (simp add: wf_dict_def)
  have look: "map_of [(''Age'', VInt 30), (''Insurance Plan'', VStr ''Gold''),
      (''Medical History'', VStr ''none'')] ''Insurance Plan'' = Some (VStr ''Gold'')"
    by simp
  show ?thesis using wf look insurance_plan_field [OF wf look] by simp
qed

text \<open>
  Claim C10. For every Raw Input mapping without the key \<open>''Insurance Plan''\<close>, the
  \<open>insurance_plan\<close> field of the Feature Row keeps its initial value 0; the default 1 is
  not applied. This holds of the row the loop builds and of the row with the risk score in
  place, before the scaling step.
\<close>

theorem insurance_plan_absent:
  assumes "map_of d ''Insurance Plan'' = None"
  shows "map_of (encode_items (df_new expected_columns) d) ''insurance_plan'' = Some (VInt 0)
       \<and> (\<forall>row. feature_row d = Inr row \<longrightarrow> map_of row ''insurance_plan'' = Some (VInt 0))"
proof -
  have "''Insurance Plan'' \<notin> fst ` set d"
    using assms by (simp add: map_of_eq_None_iff)
  moreover have "''insurance_plan'' \<in> set (written_cols ''Insurance Plan'')"
    by (simp add: written_cols_simps)
  ultimately have "map_of (encode_items (df_new expected_columns) d) ''insurance_plan''
      = map_of (df_new expected_columns) ''insurance_plan''"
    by (rule encode_items_absent)
  also have "\<dots> = Some (VInt 0)"
    by (simp add: map_of_df_new expected_columns_def)
  finally have loop:
    "map_of (encode_items (df_new expected_columns) d) ''insurance_plan'' = Some (VInt 0)" .
  moreover have "map_of row ''insurance_plan''
      = map_of (encode_items (df_new expected_columns) d) ''insurance_plan''"
    if "feature_row d = Inr row" for row
    using that by (rule feature_row_lookup) simp
  ultimately show ?thesis by simp
qed

theorem insurance_plan_absent_witness:
  "map_of [(''Age'', VInt 30), (''Medical History'', VStr ''none'')] ''Insurance Plan'' = None
   \<and> map_of (encode_items (df_new expected_columns)
        [(''Age'', VInt 30), (''Medical History'', VStr ''none'')]) ''insurance_plan''
      = Some (VInt 0)"
proof -
  have look: "map_of [(''Age'', VInt 30), (''Medical History'', VStr ''none'')]
      ''Insurance Plan'' = None"
    by simp
  show ?thesis using look insurance_plan_absent [OF look] by simp
qed

section \<open>Unrecognized values and keys\<close>

lemma unrecognized_value_noop:
  assumes "map_of one_hot_values k = Some allowed" and "v \<notin> VStr ` set allowed"
  shows "encode_item df (k, v) = df"
proof (rule key_cases [of k])
  assume "k = ''Gender''"
  with assms show ?thesis by (auto simp add: one_hot_values_def encode_item_Gender)
next
  assume "k = ''Region''"
  with assms show ?thesis
    by (auto simp add: one_hot_values_def encode_item_Region one_hot_def split: pyval.splits)
next
  assume "k = ''Marital Status''"
  with assms show ?thesis by (auto simp add: one_hot_values_def encode_item_Marital)
next
  assume "k = ''BMI Category''"
  with assms show ?thesis
    by (auto simp add: one_hot_values_def encode_item_BMI one_hot_def split: pyval.splits)
next
  assume "k = ''Smoking Status''"
  with assms show ?thesis
    by (auto simp add: one_hot_values_def encode_item_Smoking one_hot_def split: pyval.splits)
next
  assume "k = ''Employment Status''"
  with assms show ?thesis
    by (auto simp add: one_hot_values_def encode_item_Employment one_hot_def split: pyval.splits)
next
  assume "k = ''Insurance Plan''"
  with assms(1) show ?thesis by (simp add: one_hot_values_def)
next
  assume "k = ''Age''"
  with assms(1) show ?thesis by (simp add: one_hot_values_def)
next
  assume "k = ''Number of Dependants''"
  with assms(1) show ?thesis by (simp add: one_hot_values_def)
next
  assume "k = ''Income in Lakhs''"
  with assms(1) show ?thesis by (simp add: one_hot_values_def)
next
  assume "k = ''Genetical Risk''"
  with assms(1) show ?thesis by (simp add: one_hot_values_def)
next
  assume "k \<notin> set recognized_keys"
  then show ?thesis by (rule encode_item_other)
qed

lemma feature_row_returns:
  "(\<exists>row. feature_row d = Inr row) \<longleftrightarrow> (\<exists>s. map_of d ''Medical History'' = Some (VStr s))"
  by (auto simp add: feature_row_def dict_getitem_def risk_of_value_def Let_def
      split: option.splits pyval.splits)


text \<open>
  Claim C6. For every Raw Input mapping that holds an unrecognized value under a one-hot
  encoded key (such as \<open>''Atlantis''\<close> under \<open>''Region''\<close>), the loop iteration for that
  item changes nothing and raises nothing, every column of that key stays at its baseline
  0 in the encoded row, and whether the encoder returns a row depends on the Medical
  History entry alone; an item with an unrecognized key changes nothing either.
\<close>

theorem unrecognized_value_ignored:
  assumes "wf_dict d" and "map_of one_hot_values k = Some allowed"
    and "map_of d k = Some v" and "v \<notin> VStr ` set allowed"
  shows "(\<forall>df. encode_item df (k, v) = df)
       \<and> (\<forall>c \<in> set (written_cols k).
            map_of (encode_items (df_new expected_columns) d) c = Some (VInt 0))
       \<and> (\<forall>row. feature_row d = Inr row \<longrightarrow>
            (\<forall>c \<in> set (written_cols k). map_of row c = Some (VInt 0)))
       \<and> ((\<exists>row. feature_row d = Inr row)
            \<longleftrightarrow> (\<exists>s. map_of d ''Medical History'' = Some (VStr s)))
       \<and> (\<forall>k' v' df. k' \<notin> set recognized_keys \<longrightarrow> encode_item df (k', v') = df)"
proof -
  have noop: "encode_item df (k, v) = df" for df
    using assms(2,4) by (rule unrecognized_value_noop)
  have loop: "map_of (encode_items (df_new expected_columns) d) c = Some (VInt 0)"
    if c: "c \<in> set (written_cols k)" for c
  proof -
    have "map_of (encode_items (df_new expected_columns) d) c
        = map_of (encode_item (df_new expected_columns) (k, v)) c"
      using assms(1,3) c by (rule encode_items_key)
    also have "\<dots> = map_of (df_new expected_columns) c" by (simp only: noop)
    also have "\<dots> = Some (VInt 0)"
      using c written_cols_expected [of k] by (auto simp add: map_of_df_new)
    finally show ?thesis .
  qed
  have row: "map_of row c = Some (VInt 0)"
    if r: "feature_row d = Inr row" and c: "c \<in> set (written_cols k)" for row c
  proof -
    have "c \<noteq> ''normalized_risk_score''" using c written_cols_not_risk [of k] by auto
    with r have "map_of row c = map_of (encode_items (df_new expected_columns) d) c"
      by (rule feature_row_lookup)
    with loop [OF c] show ?thesis by simp
  qed
  show ?thesis
    using noop loop row feature_row_returns [of d] encode_item_other by blast
qed

theorem unrecognized_value_ignored_witness:
  "wf_dict [(''Region'', VStr ''Atlantis''), (''Medical History'', VStr ''none'')]
   \<and> map_of one_hot_values ''Region'' = Some [''Northwest'', ''Southeast'', ''Southwest'']
   \<and> map_of [(''Region'', VStr ''Atlantis''), (''Medical History'', VStr ''none'')] ''Region''
        = Some (VStr ''Atlantis'')
   \<and> VStr ''Atlantis'' \<notin> VStr ` set [''Northwest'', ''Southeast'', ''Southwest'']
   \<and> map_of (encode_items (df_new expected_columns)
         [(''Region'', VStr ''Atlantis''), (''Medical History'', VStr ''none'')]) ''region_Northwest''
        = Some (VInt 0)
   \<and> map_of (encode_items (df_new expected_columns)
         [(''Region'', VStr ''Atlantis''), (''Medical History'', VStr ''none'')]) ''region_Southeast''
        = Some (VInt 0)
   \<and> map_of (encode_items (df_new expected_columns)
         [(''Region'', VStr ''Atlantis''), (''Medical History'', VStr ''none'')]) ''region_Southwest''
        = Some (VInt 0)"
proof -
  have wf: "wf_dict [(''Region'', VStr ''Atlantis''), (''Medical History'', VStr ''none'')]"
    by (simp add: wf_dict_def)
  have tab: "map_of one_hot_values ''Region'' = Some [''Northwest'', ''Southeast'', ''Southwest'']"
    by (simp add: one_hot_values_def)
  have look: "map_of [(''Region'', VStr ''Atlantis''), (''Medical History'', VStr ''none'')]
      ''Region'' = Some (VStr ''Atlantis'')"
    by simp
  have unk: "VStr ''Atlantis'' \<notin> VStr ` set [''Northwest'', ''Southeast'', ''Southwest'']"
    by simp
  have "\<forall>c \<in> set (written_cols ''Region'').
      map_of (encode_items (df_new expected_columns)
        [(''Region'', VStr ''Atlantis''), (''Medical History'', VStr ''none'')]) c = Some (VInt 0)"
    using unrecognized_value_ignored [OF wf tab look unk] by blast
  then have cols:
    "map_of (encode_items (df_new expected_columns)
       [(''Region'', VStr ''Atlantis''), (''Medical History'', VStr ''none'')]) ''region_Northwest''
      = Some (VInt 0)"
    "map_of (encode_items (df_new expected_columns)
       [(''Region'', VStr ''Atlantis''), (''Medical History'', VStr ''none'')]) ''region_Southeast''
      = Some (VInt 0)"
    "map_of (encode_items (df_new expected_columns)
       [(''Region'', VStr ''Atlantis''), (''Medical History'', VStr ''none'')]) ''region_Southwest''
      = Some (VInt 0)"
    by (simp_all add: written_cols_simps del: encode_items.simps)
  show ?thesis by (intro conjI wf tab look unk cols)
qed

section \<open>Determinism of the encoding\<close>

text \<open>
  Claim C9. Encoding is deterministic: the Feature Row depends on the Raw Input mapping
  alone. The artifacts are only read, and two dictionaries that hold the same items, in
  whatever order they were inserted, are encoded to the same row, before and after
  scaling, or fail with the same error.
\<close>

theorem encoding_deterministic:
  assumes "wf_dict d1" and "wf_dict d2" and "set d1 = set d2"
  shows "feature_row d1 = feature_row d2 \<and> preprocess_input A d1 = preprocess_input A d2"
proof -
  have "map_of d1 = map_of d2"
    using assms by (simp add: wf_dict_def map_of_inject_set)
  then have get: "dict_getitem d1 key = dict_getitem d2 key" for key
    by (simp add: dict_getitem_def)
  have "set expected_columns \<subseteq> set (columns (df_new expected_columns))"
    and "distinct (columns (df_new expected_columns))"
    by (simp_all add: columns_df_new distinct_expected_columns)
  with assms have loop: "encode_items (df_new expected_columns) d1
      = encode_items (df_new expected_columns) d2"
    by (rule encode_items_order)
  have row: "feature_row d1 = feature_row d2"
    by (simp only: feature_row_def loop get)
  then show ?thesis by (simp only: preprocess_input_def get)
qed

theorem encoding_deterministic_witness:
  "wf_dict [(''Gender'', VStr ''Male''), (''Age'', VInt 30), (''Medical History'', VStr ''none'')]
   \<and> wf_dict [(''Medical History'', VStr ''none''), (''Gender'', VStr ''Male''), (''Age'', VInt 30)]
   \<and> set [(''Gender'', VStr ''Male''), (''Age'', VInt 30), (''Medical History'', VStr ''none'')]
       = set [(''Medical History'', VStr ''none''), (''Gender'', VStr ''Male''), (''Age'', VInt 30)]
   \<and> feature_row [(''Gender'', VStr ''Male''), (''Age'', VInt 30), (''Medical History'', VStr ''none'')]
       = feature_row [(''Medical History'', VStr ''none''), (''Gender'', VStr ''Male''), (''Age'', VInt 30)]"
proof -
  have wf1: "wf_dict [(''Gender'', VStr ''Male''), (''Age'', VInt 30),
      (''Medical History'', VStr ''none'')]"
    by (simp add: wf_dict_def)
  have wf2: "wf_dict [(''Medical History'', VStr ''none''), (''Gender'', VStr ''Male''),
      (''Age'', VInt 30)]"
    by (simp add: wf_dict_def)
  have same: "set [(''Gender'', VStr ''Male''), (''Age'', VInt 30), (''Medical History'', VStr ''none'')]
      = set [(''Medical History'', VStr ''none''), (''Gender'', VStr ''Male''), (''Age'', VInt 30)]"
    by (simp add: insert_commute)
  have "feature_row [(''Gender'', VStr ''Male''), (''Age'', VInt 30), (''Medical History'', VStr ''none'')]
      = feature_row [(''Medical History'', VStr ''none''), (''Gender'', VStr ''Male''), (''Age'', VInt 30)]"
    using encoding_deterministic [OF wf1 wf2 same] by (rule conjunct1)
  then show ?thesis by (intro conjI wf1 wf2 same)
qed

section \<open>The scaling step\<close>

lemma df_select_Inr:
  "df_select df cols = Inr sub
     \<longleftrightarrow> set cols \<subseteq> set (columns df) \<and> sub = map (\<lambda>c. (c, the (map_of df c))) cols"
proof (induction cols arbitrary: sub)
  case Nil
  show ?case by auto
next
  case (Cons c cs)
  show ?case
  proof (cases "map_of df c")
    case None
    then have "c \<notin> set (columns df)" by (simp add: columns_def map_of_eq_None_iff)
    with None show ?thesis by simp
  next
    case (Some v)
    then have "c \<in> set (columns df)"
      by (auto simp add: columns_def dest: map_of_SomeD intro: rev_image_eqI)
    show ?thesis
    proof (cases "df_select df cs")
      case (Inl e)
      have "\<not> set cs \<subseteq> set (columns df)"
        using Cons.IH [of "map (\<lambda>c. (c, the (map_of df c))) cs"] Inl by simp
      with Some Inl show ?thesis by simp
    next
      case (Inr s)
      then have "set cs \<subseteq> set (columns df)" and "s = map (\<lambda>c. (c, the (map_of df c))) cs"
        using Cons.IH [of s] by simp_all
      with Some Inr \<open>c \<in> set (columns df)\<close> show ?thesis by auto
    qed
  qed
qed

lemma columns_assign_each:
  "fst ` set cys \<subseteq> set (columns df) \<Longrightarrow> columns (assign_each df cys) = columns df"
proof (induction cys arbitrary: df)
  case Nil
  show ?case by simp
next
  case (Cons cy cys)
  obtain c y where cy: "cy = (c, y)" by (cases cy)
  have "columns (df_setitem df c (VFloat y)) = columns df"
    using Cons.prems by (simp add: cy columns_setitem)
  moreover from this have "columns (assign_each (df_setitem df c (VFloat y)) cys)
      = columns (df_setitem df c (VFloat y))"
    using Cons.prems by (intro Cons.IH) simp
  ultimately show ?case by (simp add: cy)
qed

lemma map_of_assign_each:
  "map_of (assign_each df cys) c
     = (case map_of (rev cys) c of Some y \<Rightarrow> Some (VFloat y) | None \<Rightarrow> map_of df c)"
proof (induction cys arbitrary: df)
  case Nil
  show ?case by simp
next
  case (Cons cy cys)
  obtain c' y where cy: "cy = (c', y)" by (cases cy)
  show ?case
    by (simp add: cy Cons.IH lookup_setitem map_add_def split: option.splits)
qed

lemma map_of_assign_each_other:
  "c \<notin> fst ` set cys \<Longrightarrow> map_of (assign_each df cys) c = map_of df c"
proof -
  assume "c \<notin> fst ` set cys"
  then have "map_of (rev cys) c = None" by (simp add: map_of_eq_None_iff)
  then show ?thesis by (simp add: map_of_assign_each)
qed

lemma map_of_assign_each_nth:
  assumes "distinct cols" and "length ys = length cols" and "i < length cols"
  shows "map_of (assign_each df (zip cols ys)) (cols ! i) = Some (VFloat (ys ! i))"
proof -
  have d: "distinct (map fst (rev (zip cols ys)))"
    using assms(1,2) by (simp add: rev_map [symmetric])
  have "(cols ! i, ys ! i) \<in> set (rev (zip cols ys))"
    using assms(2,3) by (auto simp add: set_zip)
  with d have "map_of (rev (zip cols ys)) (cols ! i) = Some (ys ! i)"
    by (rule map_of_is_SomeI)
  then show ?thesis by (simp add: map_of_assign_each)
qed

lemma income_level_not_expected: "''income_level'' \<notin> set expected_columns"
  by (simp add: expected_columns_def)

lemma scale_with_Inr:
  assumes "scale_with sc df = Inr out"
  obtains sub ys where
    "df_select (df_setitem df ''income_level'' (VInt 0)) (cols_to_scale sc) = Inr sub"
    and "scaler sc sub = Inr ys"
    and "length ys = length (cols_to_scale sc)"
    and "out = AList.delete ''income_level''
           (assign_each (df_setitem df ''income_level'' (VInt 0)) (zip (cols_to_scale sc) ys))"
  using assms
  by (auto simp add: scale_with_def Let_def df_assign_def df_drop_def
      split: sum.splits if_splits)

lemma scale_with_frame:
  assumes il: "''income_level'' \<notin> set (columns df)"
    and sel: "df_select (df_setitem df ''income_level'' (VInt 0)) cols = Inr sub"
    and len: "length ys = length cols"
    and out: "out = AList.delete ''income_level''
           (assign_each (df_setitem df ''income_level'' (VInt 0)) (zip cols ys))"
  shows "columns (df_setitem df ''income_level'' (VInt 0)) = columns df @ [''income_level'']"
    and "map_of (df_setitem df ''income_level'' (VInt 0)) ''income_level'' = Some (VInt 0)"
    and "columns out = columns df"
    and "''income_level'' \<notin> set (columns out)"
    and "\<forall>c \<in> set (columns df) - set cols. map_of out c = map_of df c"
    and "distinct cols \<longrightarrow>
           (\<forall>i < length cols. cols ! i \<noteq> ''income_level''
              \<longrightarrow> map_of out (cols ! i) = Some (VFloat (ys ! i)))"
proof -
  let ?staged = "df_setitem df ''income_level'' (VInt 0)"
  show staged: "columns ?staged = columns df @ [''income_level'']"
    using il by (simp add: columns_setitem)
  show "map_of ?staged ''income_level'' = Some (VInt 0)"
    by (simp add: lookup_setitem)
  have "set cols \<subseteq> set (columns ?staged)"
    using sel by (simp add: df_select_Inr)
  moreover have "fst ` set (zip cols ys) \<subseteq> set cols"
    by (auto dest: set_zip_leftD)
  ultimately have "columns (assign_each ?staged (zip cols ys)) = columns ?staged"
    by (intro columns_assign_each) blast
  then have "columns out = removeAll ''income_level'' (columns df @ [''income_level''])"
    by (simp add: out columns_def delete_keys staged [unfolded columns_def])
  then show cols_out: "columns out = columns df"
    using il by simp
  then show "''income_level'' \<notin> set (columns out)"
    using il by simp
  show "\<forall>c \<in> set (columns df) - set cols. map_of out c = map_of df c"
  proof
    fix c
    assume c: "c \<in> set (columns df) - set cols"
    then have ne: "c \<noteq> ''income_level''" using il by auto
    have "c \<notin> fst ` set (zip cols ys)" using c by (auto dest: set_zip_leftD)
    then have "map_of (assign_each ?staged (zip cols ys)) c = map_of ?staged c"
      by (rule map_of_assign_each_other)
    then show "map_of out c = map_of df c"
      using ne by (simp add: out lookup_setitem)
  qed
  show "distinct cols \<longrightarrow>
      (\<forall>i < length cols. cols ! i \<noteq> ''income_level''
         \<longrightarrow> map_of out (cols ! i) = Some (VFloat (ys ! i)))"
  proof (intro impI allI)
    fix i
    assume "distinct cols" and "i < length cols" and ne: "cols ! i \<noteq> ''income_level''"
    then have "map_of (assign_each ?staged (zip cols ys)) (cols ! i) = Some (VFloat (ys ! i))"
      using len by (intro map_of_assign_each_nth)
    then show "map_of out (cols ! i) = Some (VFloat (ys ! i))"
      using ne by (simp add: out)
  qed
qed

lemma scale_with_columns:
  assumes "''income_level'' \<notin> set (columns df)" and "scale_with sc df = Inr out"
  shows "columns out = columns df"
proof -
  from assms(2) obtain sub ys where
    "df_select (df_setitem df ''income_level'' (VInt 0)) (cols_to_scale sc) = Inr sub"
    and "length ys = length (cols_to_scale sc)"
    and "out = AList.delete ''income_level''
           (assign_each (df_setitem df ''income_level'' (VInt 0)) (zip (cols_to_scale sc) ys))"
    by (rule scale_with_Inr)
  with assms(1) show ?thesis by (rule scale_with_frame(3))
qed


text \<open>
  Claim C8. For every age and Feature Row on which \<open>handle_scaling\<close> returns: the frame
  handed to the transform has the placeholder column \<open>income_level\<close> behind the 18
  columns, with the value 0; the transform is run on the sub-frame of the columns the
  selected bundle names; the returned row has the 18 columns in their order, without the
  placeholder; every column the bundle does not name has its value unchanged; and every
  column it names holds the value the transform returned for it (for a bundle that names
  no column twice).
\<close>

theorem handle_scaling_frame:
  assumes "columns df = expected_columns" and "handle_scaling A age df = Inr out"
  shows "\<exists>young sub ys.
           py_le age 25 = Inr young
         \<and> (let sc = (if young then scaler_young A else scaler_rest A);
                 cols = cols_to_scale sc;
                 staged = df_setitem df ''income_level'' (VInt 0)
             in columns staged = expected_columns @ [''income_level'']
              \<and> map_of staged ''income_level'' = Some (VInt 0)
              \<and> df_select staged cols = Inr sub
              \<and> scaler sc sub = Inr ys
              \<and> length ys = length cols
              \<and> columns out = expected_columns
              \<and> ''income_level'' \<notin> set (columns out)
              \<and> (\<forall>c \<in> set (columns df) - set cols. map_of out c = map_of df c)
              \<and> (distinct cols \<longrightarrow>
                   (\<forall>i < length cols. cols ! i \<noteq> ''income_level''
                      \<longrightarrow> map_of out (cols ! i) = Some (VFloat (ys ! i)))))"
proof -
  from assms(2) obtain young where young: "py_le age 25 = Inr young"
    and run: "scale_with (if young then scaler_young A else scaler_rest A) df = Inr out"
    by (auto simp add: handle_scaling_def split: sum.splits)
  let ?sc = "if young then scaler_young A else scaler_rest A"
  have il: "''income_level'' \<notin> set (columns df)"
    using assms(1) income_level_not_expected by simp
  from run obtain sub ys where
    sel: "df_select (df_setitem df ''income_level'' (VInt 0)) (cols_to_scale ?sc) = Inr sub"
    and tr: "scaler ?sc sub = Inr ys"
    and len: "length ys = length (cols_to_scale ?sc)"
    and out: "out = AList.delete ''income_level''
           (assign_each (df_setitem df ''income_level'' (VInt 0)) (zip (cols_to_scale ?sc) ys))"
    by (rule scale_with_Inr)
  note frame = scale_with_frame [OF il sel len out]
  have staged: "columns (df_setitem df ''income_level'' (VInt 0))
      = expected_columns @ [''income_level'']"
    and cols: "columns out = expected_columns"
    using frame(1,3) assms(1) by simp_all
  show ?thesis
    unfolding Let_def
    by (intro exI [of _ young] exI [of _ sub] exI [of _ ys] conjI
        young staged frame(2) sel tr len cols frame(4) frame(5) frame(6))
qed


lemma sample_feature_row: "feature_row sample_input = Inr sample_row"
  by code_simp

lemma sample_handle_scaling:
  "handle_scaling sample_artifacts (VInt 22) sample_row = Inr sample_scaled"
  by code_simp

lemma sample_preprocess_input: "preprocess_input sample_artifacts sample_input = Inr sample_scaled"
  by code_simp

lemma sample_predict: "predict sample_artifacts sample_input = Inr 1234"
  by code_simp

lemma sample_row_columns: "columns sample_row = expected_columns"
  by (simp add: columns_def sample_row_def expected_columns_def)

theorem handle_scaling_frame_witness:
  "columns sample_row = expected_columns
   \<and> handle_scaling sample_artifacts (VInt 22) sample_row = Inr sample_scaled
   \<and> (\<exists>young sub ys.
           py_le (VInt 22) 25 = Inr young
         \<and> (let sc = (if young then scaler_young sample_artifacts else scaler_rest sample_artifacts);
                 cols = cols_to_scale sc;
                 staged = df_setitem sample_row ''income_level'' (VInt 0)
             in columns staged = expected_columns @ [''income_level'']
              \<and> map_of staged ''income_level'' = Some (VInt 0)
              \<and> df_select staged cols = Inr sub
              \<and> scaler sc sub = Inr ys
              \<and> length ys = length cols
              \<and> columns sample_scaled = expected_columns
              \<and> ''income_level'' \<notin> set (columns sample_scaled)
              \<and> (\<forall>c \<in> set (columns sample_row) - set cols.
                   map_of sample_scaled c = map_of sample_row c)
              \<and> (distinct cols \<longrightarrow>
                   (\<forall>i < length cols. cols ! i \<noteq> ''income_level''
                      \<longrightarrow> map_of sample_scaled (cols ! i) = Some (VFloat (ys ! i))))))"
  by (intro conjI sample_row_columns sample_handle_scaling
      handle_scaling_frame [OF sample_row_columns sample_handle_scaling])

section \<open>The columns of the Feature Row\<close>

lemma feature_row_Inr:
  assumes "feature_row d = Inr row"
  obtains r where "row = df_setitem (encode_items (df_new expected_columns) d)
      ''normalized_risk_score'' (VFloat r)"
  using assms by (auto simp add: feature_row_def Let_def split: sum.splits)

lemma feature_row_has_columns:
  assumes "feature_row d = Inr row"
  shows "columns row = expected_columns"
proof -
  from assms obtain r where row: "row = df_setitem (encode_items (df_new expected_columns) d)
      ''normalized_risk_score'' (VFloat r)"
    by (rule feature_row_Inr)
  have loop: "columns (encode_items (df_new expected_columns) d) = expected_columns"
    using encode_items_columns [of "df_new expected_columns" d] by (simp add: columns_df_new)
  moreover have "''normalized_risk_score'' \<in> set expected_columns"
    by (simp add: expected_columns_def)
  ultimately show ?thesis by (simp add: row columns_setitem)
qed

lemma preprocess_input_Inr:
  assumes "preprocess_input A d = Inr out"
  obtains row age young where "feature_row d = Inr row" and "map_of d ''Age'' = Some age"
    and "py_le age 25 = Inr young"
    and "scale_with (if young then scaler_young A else scaler_rest A) row = Inr out"
  using assms
  by (auto simp add: preprocess_input_def dict_getitem_def handle_scaling_def
      split: sum.splits option.splits)

text \<open>
  Claim C2. For every Raw Input mapping, the Feature Row built by \<open>preprocess_input\<close> has
  exactly the 18 named columns of the contract, in that order: the row the loop builds,
  the row with the risk score in place, and the row returned after the scaling step, which
  works on 19 columns while the placeholder is in.
\<close>

theorem feature_row_columns:
  "expected_columns =
     [''age'', ''number_of_dependants'', ''income_lakhs'', ''insurance_plan'', ''genetical_risk'',
      ''normalized_risk_score'', ''gender_Male'', ''region_Northwest'', ''region_Southeast'',
      ''region_Southwest'', ''marital_status_Unmarried'', ''bmi_category_Obesity'',
      ''bmi_category_Overweight'', ''bmi_category_Underweight'', ''smoking_status_Occasional'',
      ''smoking_status_Regular'', ''employment_status_Salaried'',
      ''employment_status_Self-Employed'']
   \<and> length expected_columns = 18
   \<and> columns (encode_items (df_new expected_columns) d) = expected_columns
   \<and> (\<forall>row. feature_row d = Inr row \<longrightarrow>
          columns row = expected_columns
        \<and> columns (df_setitem row ''income_level'' (VInt 0))
            = expected_columns @ [''income_level''])
   \<and> (\<forall>out. preprocess_input A d = Inr out \<longrightarrow> columns out = expected_columns)"
proof (intro conjI allI impI)
  show "expected_columns =
     [''age'', ''number_of_dependants'', ''income_lakhs'', ''insurance_plan'', ''genetical_risk'',
      ''normalized_risk_score'', ''gender_Male'', ''region_Northwest'', ''region_Southeast'',
      ''region_Southwest'', ''marital_status_Unmarried'', ''bmi_category_Obesity'',
      ''bmi_category_Overweight'', ''bmi_category_Underweight'', ''smoking_status_Occasional'',
      ''smoking_status_Regular'', ''employment_status_Salaried'',
      ''employment_status_Self-Employed'']"
    by (fact expected_columns_def)
  show "length expected_columns = 18" by (fact length_expected_columns)
  show "columns (encode_items (df_new expected_columns) d) = expected_columns"
    using encode_items_columns [of "df_new expected_columns" d] by (simp add: columns_df_new)
next
  fix row
  assume "feature_row d = Inr row"
  then show cols: "columns row = expected_columns" by (rule feature_row_has_columns)
  then show "columns (df_setitem row ''income_level'' (VInt 0))
      = expected_columns @ [''income_level'']"
    using income_level_not_expected by (simp add: columns_setitem)
next
  fix out
  assume "preprocess_input A d = Inr out"
  then obtain row young where row: "feature_row d = Inr row"
    and run: "scale_with (if young then scaler_young A else scaler_rest A) row = Inr out"
    by (rule preprocess_input_Inr)
  have cols: "columns row = expected_columns" using row by (rule feature_row_has_columns)
  then have "''income_level'' \<notin> set (columns row)"
    using income_level_not_expected by simp
  then have "columns out = columns row" using run by (rule scale_with_columns)
  with cols show "columns out = expected_columns" by simp
qed

theorem feature_row_columns_witness:
  "feature_row sample_input = Inr sample_row
   \<and> preprocess_input sample_artifacts sample_input = Inr sample_scaled
   \<and> columns sample_row = expected_columns
   \<and> columns (df_setitem sample_row ''income_level'' (VInt 0))
       = expected_columns @ [''income_level'']
   \<and> columns sample_scaled = expected_columns"
  using feature_row_columns [of sample_input sample_artifacts]
    sample_feature_row sample_preprocess_input
  by blast

section \<open>Age brackets\<close>

lemma predict_after_preprocess:
  assumes "preprocess_input A d = Inr row" and "map_of d ''Age'' = Some age"
  shows "predict A d
     = (case py_le age 25 of
          Inl e \<Rightarrow> Inl e
        | Inr young \<Rightarrow> run_model (if young then model_young A else model_rest A) row)"
  using assms by (simp add: predict_def dict_getitem_def)

text \<open>
  Claim C3. For age 25 both \<open>handle_scaling\<close> and \<open>predict\<close> take the young bundle and
  the young model, for age 26 and every greater age the rest bundle and the rest model;
  for every numeric age the scaler and the model are chosen by the same test, age at most
  25, and an age that cannot be compared with 25 fails in the same way in both.
\<close>

theorem age_bracket_selection:
  "handle_scaling A (VInt 25) df = scale_with (scaler_young A) df
   \<and> handle_scaling A (VInt 26) df = scale_with (scaler_rest A) df
   \<and> (\<forall>d row. preprocess_input A d = Inr row \<and> map_of d ''Age'' = Some (VInt 25)
         \<longrightarrow> predict A d = run_model (model_young A) row)
   \<and> (\<forall>d row. preprocess_input A d = Inr row \<and> map_of d ''Age'' = Some (VInt 26)
         \<longrightarrow> predict A d = run_model (model_rest A) row)
   \<and> (\<forall>a. handle_scaling A (VInt a) df
           = scale_with (if a \<le> 25 then scaler_young A else scaler_rest A) df)
   \<and> (\<forall>a d row. preprocess_input A d = Inr row \<and> map_of d ''Age'' = Some (VInt a)
         \<longrightarrow> predict A d = run_model (if a \<le> 25 then model_young A else model_rest A) row)
   \<and> (\<forall>r. handle_scaling A (VFloat r) df
           = scale_with (if r \<le> 25 then scaler_young A else scaler_rest A) df)
   \<and> (\<forall>r d row. preprocess_input A d = Inr row \<and> map_of d ''Age'' = Some (VFloat r)
         \<longrightarrow> predict A d = run_model (if r \<le> 25 then model_young A else model_rest A) row)
   \<and> (\<forall>s. handle_scaling A (VStr s) df = Inl TypeError)"
proof -
  have scale_int: "handle_scaling A (VInt a) df
      = scale_with (if a \<le> 25 then scaler_young A else scaler_rest A) df" for a
    by (simp add: handle_scaling_def)
  have scale_float: "handle_scaling A (VFloat r) df
      = scale_with (if r \<le> 25 then scaler_young A else scaler_rest A) df" for r
    by (simp add: handle_scaling_def)
  have scale_str: "handle_scaling A (VStr s) df = Inl TypeError" for s
    by (simp add: handle_scaling_def)
  have model_int: "predict A d = run_model (if a \<le> 25 then model_young A else model_rest A) row"
    if "preprocess_input A d = Inr row \<and> map_of d ''Age'' = Some (VInt a)" for a d row
    using that predict_after_preprocess [of A d row "VInt a"] by simp
  have model_float: "predict A d = run_model (if r \<le> 25 then model_young A else model_rest A) row"
    if "preprocess_input A d = Inr row \<and> map_of d ''Age'' = Some (VFloat r)" for r d row
    using that predict_after_preprocess [of A d row "VFloat r"] by simp
  have "handle_scaling A (VInt 25) df = scale_with (scaler_young A) df"
    and "handle_scaling A (VInt 26) df = scale_with (scaler_rest A) df"
    by (simp_all add: scale_int)
  moreover have "predict A d = run_model (model_young A) row"
    if "preprocess_input A d = Inr row \<and> map_of d ''Age'' = Some (VInt 25)" for d row
    using model_int [OF that] by simp
  moreover have "predict A d = run_model (model_rest A) row"
    if "preprocess_input A d = Inr row \<and> map_of d ''Age'' = Some (VInt 26)" for d row
    using model_int [OF that] by simp
  ultimately show ?thesis
    using scale_int scale_float scale_str model_int model_float by blast
qed


lemma sample_models:
  "run_model (model_young sample_artifacts) row = Inr 1234"
  "run_model (model_rest sample_artifacts) row = Inr 6789"
proof -
  have "py_int (12345 / 10) = 1234" and "py_int (67891 / 10) = 6789"
    by code_simp+
  then show "run_model (model_young sample_artifacts) row = Inr 1234"
    and "run_model (model_rest sample_artifacts) row = Inr 6789"
    by (simp_all only: run_model_def sample_artifacts_def artifacts.simps sum.case)
qed

theorem age_bracket_selection_witness:
  "(\<exists>row. preprocess_input sample_artifacts
            [(''Age'', VInt 25), (''Medical History'', VStr ''none'')] = Inr row)
   \<and> map_of [(''Age'', VInt 25), (''Medical History'', VStr ''none'')] ''Age'' = Some (VInt 25)
   \<and> predict sample_artifacts [(''Age'', VInt 25), (''Medical History'', VStr ''none'')] = Inr 1234
   \<and> (\<exists>row. preprocess_input sample_artifacts
            [(''Age'', VInt 26), (''Medical History'', VStr ''none'')] = Inr row)
   \<and> map_of [(''Age'', VInt 26), (''Medical History'', VStr ''none'')] ''Age'' = Some (VInt 26)
   \<and> predict sample_artifacts [(''Age'', VInt 26), (''Medical History'', VStr ''none'')] = Inr 6789"
proof -
  let ?d25 = "[(''Age'', VInt 25), (''Medical History'', VStr ''none'')]"
  let ?d26 = "[(''Age'', VInt 26), (''Medical History'', VStr ''none'')]"
  have "case preprocess_input sample_artifacts ?d25 of Inl e \<Rightarrow> False | Inr row \<Rightarrow> True"
    by code_simp
  then obtain row25 where r25: "preprocess_input sample_artifacts ?d25 = Inr row25"
    by (auto split: sum.splits)
  have "case preprocess_input sample_artifacts ?d26 of Inl e \<Rightarrow> False | Inr row \<Rightarrow> True"
    by code_simp
  then obtain row26 where r26: "preprocess_input sample_artifacts ?d26 = Inr row26"
    by (auto split: sum.splits)
  have a25: "map_of ?d25 ''Age'' = Some (VInt 25)" and a26: "map_of ?d26 ''Age'' = Some (VInt 26)"
    by simp_all
  note sel = age_bracket_selection [of sample_artifacts "[]"]
  have "predict sample_artifacts ?d25 = run_model (model_young sample_artifacts) row25"
    using sel r25 a25 by blast
  then have p25: "predict sample_artifacts ?d25 = Inr 1234"
    by (simp only: sample_models)
  have "predict sample_artifacts ?d26 = run_model (model_rest sample_artifacts) row26"
    using sel r26 a26 by blast
  then have p26: "predict sample_artifacts ?d26 = Inr 6789"
    by (simp only: sample_models)
  show ?thesis using r25 r26 a25 a26 p25 p26 by blast
qed

section \<open>Missing keys\<close>

text \<open>
  Claim C5. The value under \<open>''Medical History''\<close> is a string, as the annotation of
  \<open>calculate_normalized_risk\<close> says. For every such Raw Input mapping that lacks the key
  \<open>''Medical History''\<close> or the key \<open>''Age''\<close>, \<open>preprocess_input\<close> and \<open>predict\<close> fail with
  the key error that names a key the mapping lacks: \<open>''Medical History''\<close> when that key is
  missing, \<open>''Age''\<close> when only \<open>''Age''\<close> is missing. Neither returns a row or a prediction,
  so no default stands in for either key.
\<close>

theorem missing_key_error:
  assumes "map_of d ''Medical History'' = None \<or> (\<exists>s. map_of d ''Medical History'' = Some (VStr s))"
    and "map_of d ''Medical History'' = None \<or> map_of d ''Age'' = None"
  shows "(\<exists>k. (k = ''Medical History'' \<or> k = ''Age'') \<and> map_of d k = None
            \<and> preprocess_input A d = Inl (KeyError k) \<and> predict A d = Inl (KeyError k))
       \<and> (map_of d ''Medical History'' = None \<longrightarrow>
              preprocess_input A d = Inl (KeyError ''Medical History'')
            \<and> predict A d = Inl (KeyError ''Medical History''))
       \<and> (map_of d ''Medical History'' \<noteq> None \<longrightarrow>
              preprocess_input A d = Inl (KeyError ''Age'')
            \<and> predict A d = Inl (KeyError ''Age''))
       \<and> (\<forall>row. preprocess_input A d \<noteq> Inr row) \<and> (\<forall>p. predict A d \<noteq> Inr p)"
proof (cases "map_of d ''Medical History''")
  case None
  then have "preprocess_input A d = Inl (KeyError ''Medical History'')"
    and "predict A d = Inl (KeyError ''Medical History'')"
    by (simp_all add: predict_def preprocess_input_def feature_row_def dict_getitem_def Let_def)
  with None show ?thesis by auto
next
  case (Some v)
  then obtain s where mh: "map_of d ''Medical History'' = Some (VStr s)"
    using assms(1) by auto
  have age: "map_of d ''Age'' = None" using assms(2) Some by simp
  have "preprocess_input A d = Inl (KeyError ''Age'')"
    and "predict A d = Inl (KeyError ''Age'')"
    using mh age
    by (simp_all add: predict_def preprocess_input_def feature_row_def dict_getitem_def
        risk_of_value_def Let_def)
  with age Some show ?thesis by auto
qed

theorem missing_key_error_witness:
  "map_of [(''Age'', VInt 30)] ''Medical History'' = None
   \<and> predict sample_artifacts [(''Age'', VInt 30)] = Inl (KeyError ''Medical History'')
   \<and> map_of [(''Medical History'', VStr ''none'')] ''Medical History'' = Some (VStr ''none'')
   \<and> map_of [(''Medical History'', VStr ''none'')] ''Age'' = None
   \<and> predict sample_artifacts [(''Medical History'', VStr ''none'')] = Inl (KeyError ''Age'')"
proof -
  have m1: "map_of [(''Age'', VInt 30)] ''Medical History'' = None" by simp
  have m2: "map_of [(''Medical History'', VStr ''none'')] ''Medical History'' = Some (VStr ''none'')"
    by simp
  have a2: "map_of [(''Medical History'', VStr ''none'')] ''Age'' = None" by simp
  have t1: "map_of [(''Age'', VInt 30)] ''Medical History'' = None
      \<or> (\<exists>s. map_of [(''Age'', VInt 30)] ''Medical History'' = Some (VStr s))"
    using m1 by (rule disjI1)
  have h1: "map_of [(''Age'', VInt 30)] ''Medical History'' = None
      \<or> map_of [(''Age'', VInt 30)] ''Age'' = None"
    using m1 by (rule disjI1)
  have t2: "map_of [(''Medical History'', VStr ''none'')] ''Medical History'' = None
      \<or> (\<exists>s. map_of [(''Medical History'', VStr ''none'')] ''Medical History'' = Some (VStr s))"
    using m2 by blast
  have h2: "map_of [(''Medical History'', VStr ''none'')] ''Medical History'' = None
      \<or> map_of [(''Medical History'', VStr ''none'')] ''Age'' = None"
    using a2 by (rule disjI2)
  have p1: "predict sample_artifacts [(''Age'', VInt 30)] = Inl (KeyError ''Medical History'')"
    using missing_key_error [OF t1 h1, of sample_artifacts] m1 by blast
  have p2: "predict sample_artifacts [(''Medical History'', VStr ''none'')] = Inl (KeyError ''Age'')"
    using missing_key_error [OF t2 h2, of sample_artifacts] m2 by simp
  show ?thesis by (intro conjI m1 p1 m2 a2 p2)
qed

section \<open>Bounds and monotonicity of the risk score\<close>

lemma lower_char_amp: "lower_char c = CHR ''&'' \<longleftrightarrow> c = CHR ''&''"
  by (auto simp add: lower_char_def split: option.splits if_splits)

lemma amp_in_lower: "CHR ''&'' \<in> set (lower n) \<longleftrightarrow> CHR ''&'' \<in> set n"
proof -
  have "CHR ''&'' \<in> set (lower n) \<longleftrightarrow> (\<exists>x \<in> set n. lower_char x = CHR ''&'')"
    unfolding lower_def set_map image_iff by (rule bex_cong [OF refl]) (rule eq_commute)
  also have "\<dots> \<longleftrightarrow> CHR ''&'' \<in> set n"
    by (simp add: lower_char_amp)
  finally show ?thesis .
qed

lemma lower_append: "lower (xs @ ys) = lower xs @ lower ys"
  by (simp add: lower_def)

lemma lower_separator: "lower '' & '' = '' & ''"
  by (simp add: lower_def lower_char_def)

lemma lower_join: "lower (py_join '' & '' ps) = py_join '' & '' (map lower ps)"
proof (induction "'' & ''" ps rule: py_join.induct)
  case 1
  show ?case by (simp add: lower_def)
next
  case (2 p)
  show ?case by simp
next
  case (3 p q ps)
  have "lower (py_join '' & '' (p # q # ps))
      = lower p @ lower '' & '' @ lower (py_join '' & '' (q # ps))"
    by (simp only: py_join.simps lower_append)
  also have "\<dots> = lower p @ '' & '' @ py_join '' & '' (map lower (q # ps))"
    by (simp only: lower_separator 3)
  finally show ?case by simp
qed

lemma split_acc_part:
  assumes "CHR ''&'' \<notin> set p" and "rest = [] \<or> (\<exists>r. rest = '' & '' @ r)"
  shows "split_acc '' & '' acc (p @ rest) = split_acc '' & '' (acc @ p) rest"
  using assms
proof (induction p arbitrary: acc)
  case Nil
  show ?case by simp
next
  case (Cons c p)
  have nomatch: "take (length '' & '') (c # (p @ rest)) \<noteq> '' & ''"
  proof (cases p)
    case Nil
    with Cons.prems(2) show ?thesis by auto
  next
    case (Cons c' p')
    with Cons.prems(1) show ?thesis by auto
  qed
  have "split_acc '' & '' acc ((c # p) @ rest) = split_acc '' & '' (acc @ [c]) (p @ rest)"
    by (simp only: append_Cons split_acc.simps(2) nomatch simp_thms if_False)
  also have "\<dots> = split_acc '' & '' ((acc @ [c]) @ p) rest"
    using Cons.prems by (intro Cons.IH) simp_all
  finally show ?case by simp
qed

lemma split_acc_separator:
  "split_acc '' & '' acc ('' & '' @ s) = acc # split_acc '' & '' [] s"
  by simp

lemma split_acc_join:
  assumes "ps \<noteq> []" and "\<forall>p \<in> set ps. CHR ''&'' \<notin> set p"
  shows "split_acc '' & '' acc (py_join '' & '' ps) = (acc @ hd ps) # tl ps"
  using assms
proof (induction "'' & ''" ps arbitrary: acc rule: py_join.induct)
  case 1
  then show ?case by simp
next
  case (2 p)
  then have "split_acc '' & '' acc (p @ []) = split_acc '' & '' (acc @ p) []"
    by (intro split_acc_part) simp_all
  then show ?case by simp
next
  case (3 p q ps)
  have "split_acc '' & '' acc (p @ '' & '' @ py_join '' & '' (q # ps))
      = split_acc '' & '' (acc @ p) ('' & '' @ py_join '' & '' (q # ps))"
    using "3.prems"(2) by (intro split_acc_part) auto
  also have "\<dots> = (acc @ p) # split_acc '' & '' [] (py_join '' & '' (q # ps))"
    by (rule split_acc_separator)
  also have "split_acc '' & '' [] (py_join '' & '' (q # ps)) = ([] @ hd (q # ps)) # tl (q # ps)"
    using "3.prems"(2) by (intro "3.hyps") simp_all
  finally show ?case by simp
qed

lemma py_split_join:
  assumes "ps \<noteq> []" and "\<forall>p \<in> set ps. CHR ''&'' \<notin> set p"
  shows "py_split '' & '' (py_join '' & '' ps) = ps"
  using split_acc_join [OF assms, of "[]"] assms(1) by (simp add: py_split_def)


lemma known_no_amp: "known_condition n \<Longrightarrow> CHR ''&'' \<notin> set (lower n)"
  by (auto simp add: known_condition_def risk_scores_def)

lemma spec_weight_bounds:
  "0 \<le> spec_weight x"
  "spec_weight x \<le> 8"
  "x \<noteq> ''heart disease'' \<Longrightarrow> spec_weight x \<le> 6"
  by (simp_all add: spec_weight_def)

lemma risk_nonneg: "0 \<le> calculate_normalized_risk s"
proof -
  have "0 \<le> sum_list (map spec_weight (py_split '' & '' (lower s)))"
    by (rule sum_list_nonneg) (auto simp add: spec_weight_bounds(1))
  then show ?thesis
    by (simp add: calculate_normalized_risk_def Let_def dict_get_risk_scores)
qed

lemma risk_known:
  assumes "\<forall>n \<in> set names. known_condition n"
  shows "calculate_normalized_risk (py_join '' & '' names)
     = of_int (sum_list (map (\<lambda>n. spec_weight (lower n)) names)) / 14"
proof (cases "names = []")
  case True
  have "py_split '' & '' (lower []) = [[]]"
    by (simp add: py_split_def lower_def)
  then show ?thesis
    by (simp add: True calculate_normalized_risk_def Let_def dict_get_risk_scores spec_weight_def
        lower_def)
next
  case False
  have "\<forall>p \<in> set (map lower names). CHR ''&'' \<notin> set p"
    using assms known_no_amp by auto
  moreover have "map lower names \<noteq> []" using False by simp
  ultimately have "py_split '' & '' (py_join '' & '' (map lower names)) = map lower names"
    by (intro py_split_join)
  then have "py_split '' & '' (lower (py_join '' & '' names)) = map lower names"
    by (simp only: lower_join)
  then show ?thesis
    by (simp add: calculate_normalized_risk_def Let_def dict_get_risk_scores comp_def)
qed

lemma two_conditions_at_most_14:
  assumes "length names \<le> 2" and "distinct (map lower names)"
  shows "sum_list (map (\<lambda>n. spec_weight (lower n)) names) \<le> 14"
proof -
  consider "names = []" | a where "names = [a]" | a b where "names = [a, b]"
    using assms(1) by (cases names; cases "tl names"; cases "tl (tl names)") auto
  then show ?thesis
  proof cases
    case 1
    then show ?thesis by simp
  next
    case 2
    then show ?thesis using spec_weight_bounds(2) [of "lower a"] by simp
  next
    case 3
    then have ne: "lower a \<noteq> lower b" using assms(2) by simp
    show ?thesis
    proof (cases "lower a = ''heart disease''")
      case True
      then have "lower b \<noteq> ''heart disease''" using ne by simp
      then have "spec_weight (lower b) \<le> 6" by (rule spec_weight_bounds(3))
      with spec_weight_bounds(2) [of "lower a"] 3 show ?thesis by simp
    next
      case False
      then have "spec_weight (lower a) \<le> 6" by (rule spec_weight_bounds(3))
      with spec_weight_bounds(2) [of "lower b"] 3 show ?thesis by simp
    qed
  qed
qed


text \<open>
  Claim C4, as the code has it. For every medical-history string made of known condition
  names joined by \<open>'' & ''\<close>, the risk score is at least 0; it is at most 1 exactly when
  the weights of the listed names sum to at most 14, which is so whenever the string lists
  at most two names and no condition twice (names compared without regard to case); it
  never decreases when a known condition is added anywhere in the string, nor when a
  condition is replaced by a known condition of at least the same weight.
\<close>

theorem risk_score_bounds_monotone:
  assumes "\<forall>n \<in> set names. known_condition n"
  shows "0 \<le> calculate_normalized_risk (py_join '' & '' names)
       \<and> (length names \<le> 2 \<and> distinct (map lower names)
            \<longrightarrow> calculate_normalized_risk (py_join '' & '' names) \<le> 1)
       \<and> (\<forall>xs ys c. names = xs @ ys \<and> known_condition c
            \<longrightarrow> calculate_normalized_risk (py_join '' & '' (xs @ ys))
                \<le> calculate_normalized_risk (py_join '' & '' (xs @ c # ys)))
       \<and> (\<forall>xs ys c c'. names = xs @ c # ys \<and> known_condition c'
              \<and> spec_weight (lower c) \<le> spec_weight (lower c')
            \<longrightarrow> calculate_normalized_risk (py_join '' & '' (xs @ c # ys))
                \<le> calculate_normalized_risk (py_join '' & '' (xs @ c' # ys)))
       \<and> (calculate_normalized_risk (py_join '' & '' names) \<le> 1
            \<longleftrightarrow> sum_list (map (\<lambda>n. spec_weight (lower n)) names) \<le> 14)"
proof (intro conjI allI impI)
  show "0 \<le> calculate_normalized_risk (py_join '' & '' names)" by (rule risk_nonneg)
next
  have "(of_int (sum_list (map (\<lambda>n. spec_weight (lower n)) names)) :: rat) \<le> 14
      \<longleftrightarrow> sum_list (map (\<lambda>n. spec_weight (lower n)) names) \<le> 14"
    by (metis of_int_le_iff of_int_numeral)
  then show "calculate_normalized_risk (py_join '' & '' names) \<le> 1
      \<longleftrightarrow> sum_list (map (\<lambda>n. spec_weight (lower n)) names) \<le> 14"
    by (simp add: risk_known [OF assms])
next
  assume "length names \<le> 2 \<and> distinct (map lower names)"
  then have "sum_list (map (\<lambda>n. spec_weight (lower n)) names) \<le> 14"
    by (intro two_conditions_at_most_14) simp_all
  then have "(of_int (sum_list (map (\<lambda>n. spec_weight (lower n)) names)) :: rat) \<le> 14"
    by (metis of_int_le_iff of_int_numeral)
  then show "calculate_normalized_risk (py_join '' & '' names) \<le> 1"
    by (simp add: risk_known [OF assms])
next
  fix xs ys c
  assume h: "names = xs @ ys \<and> known_condition c"
  then have k1: "\<forall>n \<in> set (xs @ ys). known_condition n"
    and k2: "\<forall>n \<in> set (xs @ c # ys). known_condition n"
    using assms by auto
  have "(0::int) \<le> spec_weight (lower c)" by (rule spec_weight_bounds(1))
  then show "calculate_normalized_risk (py_join '' & '' (xs @ ys))
      \<le> calculate_normalized_risk (py_join '' & '' (xs @ c # ys))"
    by (simp add: risk_known [OF k1] risk_known [OF k2] divide_right_mono)
next
  fix xs ys c c'
  assume h: "names = xs @ c # ys \<and> known_condition c'
      \<and> spec_weight (lower c) \<le> spec_weight (lower c')"
  then have k1: "\<forall>n \<in> set (xs @ c # ys). known_condition n"
    and k2: "\<forall>n \<in> set (xs @ c' # ys). known_condition n"
    using assms by auto
  from h show "calculate_normalized_risk (py_join '' & '' (xs @ c # ys))
      \<le> calculate_normalized_risk (py_join '' & '' (xs @ c' # ys))"
    by (simp add: risk_known [OF k1] risk_known [OF k2] divide_right_mono)
qed

theorem risk_score_bounds_monotone_witness:
  "known_condition ''Diabetes'' \<and> known_condition ''heart disease''
   \<and> 0 \<le> calculate_normalized_risk (py_join '' & '' [''Diabetes'', ''heart disease''])
   \<and> calculate_normalized_risk (py_join '' & '' [''Diabetes'', ''heart disease'']) \<le> 1
   \<and> calculate_normalized_risk (py_join '' & '' ([''Diabetes''] @ [''heart disease'']))
       \<le> calculate_normalized_risk (py_join '' & '' ([''Diabetes''] @ ''thyroid'' # [''heart disease'']))
   \<and> calculate_normalized_risk (py_join '' & '' ([''Diabetes''] @ ''thyroid'' # [''heart disease'']))
       \<le> calculate_normalized_risk (py_join '' & '' ([''Diabetes''] @ ''Thyroid'' # [''heart disease'']))"
proof -
  have k: "\<forall>n \<in> set [''Diabetes'', ''heart disease'']. known_condition n"
    by (simp add: known_condition_def lower_def lower_char_def risk_scores_def)
  have k3: "\<forall>n \<in> set [''Diabetes'', ''thyroid'', ''heart disease'']. known_condition n"
    by (simp add: known_condition_def lower_def lower_char_def risk_scores_def)
  have kt: "known_condition ''thyroid''" and kT: "known_condition ''Thyroid''"
    by (simp_all add: known_condition_def lower_def lower_char_def risk_scores_def)
  have two: "length [''Diabetes'', ''heart disease''] \<le> 2
      \<and> distinct (map lower [''Diabetes'', ''heart disease''])"
    by (simp add: lower_def lower_char_def)
  have same: "spec_weight (lower ''thyroid'') \<le> spec_weight (lower ''Thyroid'')"
    by (simp add: lower_def lower_char_def)
  note t = risk_score_bounds_monotone [OF k]
  note t3 = risk_score_bounds_monotone [OF k3]
  have a: "0 \<le> calculate_normalized_risk (py_join '' & '' [''Diabetes'', ''heart disease''])"
    using t by (rule conjunct1)
  have b: "calculate_normalized_risk (py_join '' & '' [''Diabetes'', ''heart disease'']) \<le> 1"
    using t two by blast
  have c: "calculate_normalized_risk (py_join '' & '' ([''Diabetes''] @ [''heart disease'']))
      \<le> calculate_normalized_risk (py_join '' & '' ([''Diabetes''] @ ''thyroid'' # [''heart disease'']))"
    using t kt by (metis append_Cons append_Nil)
  have d: "calculate_normalized_risk (py_join '' & '' ([''Diabetes''] @ ''thyroid'' # [''heart disease'']))
      \<le> calculate_normalized_risk (py_join '' & '' ([''Diabetes''] @ ''Thyroid'' # [''heart disease'']))"
    using t3 kT same by (metis append_Cons append_Nil)
  have kd: "known_condition ''Diabetes''" and kh: "known_condition ''heart disease''"
    using k by simp_all
  show ?thesis by (intro conjI kd kh a b c d)
qed

lemma heart_disease_twice:
  "calculate_normalized_risk (py_join '' & '' [''heart disease'', ''heart disease'']) = 16 / 14"
proof -
  have "\<forall>n \<in> set [''heart disease'', ''heart disease'']. known_condition n"
    by (simp add: known_condition_def lower_def lower_char_def risk_scores_def)
  then show ?thesis
    by (simp only: risk_known) (simp add: lower_def lower_char_def spec_weight_def)
qed

text \<open>
  The claim as the specification words it bounds the score by 1 for every string of known
  names. Three known conditions together weigh 19, more than the divisor 14; so do two
  entries when both are heart disease, which weigh 16.
\<close>

theorem risk_score_bounds_counterexample:
  "known_condition ''heart disease'' \<and> known_condition ''diabetes'' \<and> known_condition ''thyroid''
   \<and> py_join '' & '' [''heart disease'', ''diabetes'', ''thyroid'']
       = ''heart disease & diabetes & thyroid''
   \<and> calculate_normalized_risk ''heart disease & diabetes & thyroid'' = 19 / 14
   \<and> \<not> calculate_normalized_risk ''heart disease & diabetes & thyroid'' \<le> 1"
proof -
  have parts: "py_split '' & '' (lower ''heart disease & diabetes & thyroid'')
      = [''heart disease'', ''diabetes'', ''thyroid'']"
    by (simp add: py_split_def lower_def lower_char_def)
  have score: "calculate_normalized_risk ''heart disease & diabetes & thyroid'' = 19 / 14"
    unfolding calculate_normalized_risk_def Let_def parts
    by (simp add: dict_get_risk_scores spec_weight_def)
  moreover have "\<not> (19 / 14 :: rat) \<le> 1" by simp
  moreover have "known_condition ''heart disease''" "known_condition ''diabetes''"
    "known_condition ''thyroid''"
    by (simp_all add: known_condition_def lower_def lower_char_def risk_scores_def)
  ultimately show ?thesis by simp
qed

end
